theory Spec2Isabelle
  imports Main
begin

section \<open>Errors\<close>

text \<open>
  Go's \<^verbatim>\<open>error\<close> values. The sentinels are the package's \<^verbatim>\<open>errors.New\<close>
  variables; \<open>UserError\<close> stands for any error value made outside the package (by a
  module or a hook); \<open>Errorf fmt args e\<close> is \<^verbatim>\<open>fmt.Errorf(fmt, ...)\<close> with exactly one
  \<^verbatim>\<open>%w\<close> verb wrapping \<open>e\<close> and the string operands \<open>args\<close>; \<open>Joined es\<close> is the
  value built by \<^verbatim>\<open>errors.Join\<close> from the non-nil operands \<open>es\<close>.
  The interface value \<^verbatim>\<open>nil\<close> is \<open>None\<close>.
\<close>

datatype err =
    ErrApplicationAlreadyRunning
  | ErrApplicationAlreadyStopped
  | ErrGracefulShutdownTimedOut
  | ErrRegistrationClosed
  | ErrModuleAlreadyRegistered
  | ErrModuleNameEmpty
  | ErrAppNameEmpty
  | ErrShutdownTimeoutNonPositive
  | UserError string
  | Errorf string "string list" err
  | Joined "err list"

text \<open>\<^verbatim>\<open>errors.Join\<close>: nil operands are discarded; the result is nil when none is left.\<close>

definition errors_Join :: "err option list \<Rightarrow> err option" where
  "errors_Join errs =
     (case List.map_filter (\<lambda>e. e) errs of [] \<Rightarrow> None | e # es \<Rightarrow> Some (Joined (e # es)))"

text \<open>\<^verbatim>\<open>errors.Is\<close>: the error itself, or anything reached by unwrapping.\<close>

fun errors_Is :: "err \<Rightarrow> err \<Rightarrow> bool" where
  "errors_Is (Errorf f args e) target = (Errorf f args e = target \<or> errors_Is e target)"
| "errors_Is (Joined es) target = (Joined es = target \<or> (\<exists>e \<in> set es. errors_Is e target))"
| "errors_Is e target = (e = target)"

text \<open>An \<^verbatim>\<open>error\<close> result is of a kind when it is non-nil and \<^verbatim>\<open>errors.Is\<close> holds.\<close>

definition is_kind :: "err option \<Rightarrow> err \<Rightarrow> bool" where
  "is_kind r target = (case r of None \<Rightarrow> False | Some e \<Rightarrow> errors_Is e target)"

section \<open>Context and metadata accessors\<close>

text \<open>
  A \<^verbatim>\<open>context.Context\<close> as far as the package reads it: the values stored under keys,
  and the timeout it was derived with, if any. The four keys of the package are values
  of unexported types; \<open>ForeignKey\<close> is any key of another package. Times are
  nanoseconds from the zero \<^verbatim>\<open>time.Time\<close>, so the zero time is \<open>0\<close>.
\<close>

datatype ctx_key =
    contextKeyAppName
  | contextKeyAppVersion
  | contextKeyAppEnvironment
  | contextKeyAppStartTime
  | ForeignKey string

datatype ctx_val = StringVal string | TimeVal int | ForeignVal string

record Context =
  Value :: "ctx_key \<rightharpoonup> ctx_val"
  Timeout :: "int option"

definition Background :: Context where
  "Background = \<lparr>Value = Map.empty, Timeout = None\<rparr>"

definition WithValue :: "Context \<Rightarrow> ctx_key \<Rightarrow> ctx_val \<Rightarrow> Context" where
  "WithValue ctx k v = ctx\<lparr>Value := (Value ctx)(k \<mapsto> v)\<rparr>"

text \<open>
  \<^verbatim>\<open>context.WithCancel\<close> derives a context with the same values; whether and when it
  is cancelled is not stored in it but given to the run from outside (see \<open>env\<close> below).
\<close>

definition WithCancel :: "Context \<Rightarrow> Context" where
  "WithCancel ctx = ctx"

definition WithTimeout :: "Context \<Rightarrow> int \<Rightarrow> Context" where
  "WithTimeout ctx d = ctx\<lparr>Timeout := Some d\<rparr>"

text \<open>The accessors: a comma-ok type assertion, so a missing or foreign value gives the zero value.\<close>

definition NameFromContext :: "Context \<Rightarrow> string" where
  "NameFromContext ctx =
     (case Value ctx contextKeyAppName of Some (StringVal v) \<Rightarrow> v | _ \<Rightarrow> '''')"

definition VersionFromContext :: "Context \<Rightarrow> string" where
  "VersionFromContext ctx =
     (case Value ctx contextKeyAppVersion of Some (StringVal v) \<Rightarrow> v | _ \<Rightarrow> '''')"

definition EnvironmentFromContext :: "Context \<Rightarrow> string" where
  "EnvironmentFromContext ctx =
     (case Value ctx contextKeyAppEnvironment of Some (StringVal v) \<Rightarrow> v | _ \<Rightarrow> '''')"

definition StartTimeFromContext :: "Context \<Rightarrow> int" where
  "StartTimeFromContext ctx =
     (case Value ctx contextKeyAppStartTime of Some (TimeVal v) \<Rightarrow> v | _ \<Rightarrow> 0)"

section \<open>Modules, hooks and the registry\<close>

text \<open>
  A method \<^verbatim>\<open>func(ctx) error\<close> of a module or a hook is arbitrary user code: it reads
  the context and the state \<open>'w\<close> of everything outside the coordinator, changes that
  state and returns an error or nil.
\<close>

type_synonym 'w action = "Context \<Rightarrow> 'w \<Rightarrow> err option \<times> 'w"

text \<open>
  What the single receive on a background module's \<^verbatim>\<open>Err()\<close> channel observes: nothing
  ever, the channel closed, or a value sent (which may be nil).
\<close>

datatype chan_signal = NeverSignals | Closes | Sends "err option"

text \<open>
  The \<^verbatim>\<open>Module\<close> interface. \<open>Err\<close> is \<open>Some\<close> when the module also implements
  \<^verbatim>\<open>BackgroundModule\<close>, \<open>Health\<close> is \<open>Some\<close> when it implements \<^verbatim>\<open>HealthChecker\<close>.
\<close>

record 'w module =
  Name :: string
  Init :: "'w action"
  Start :: "'w action"
  Stop :: "'w action"
  Err :: "chan_signal option"
  Health :: "'w action option"

text \<open>\<^verbatim>\<open>Hook\<close>: a nil callback is \<open>None\<close>.\<close>

record 'w hook =
  BeforeStart :: "'w action option"
  AfterStart :: "'w action option"
  BeforeStop :: "'w action option"
  AfterStop :: "'w action option"

record 'w registry =
  modules :: "'w module list"
  names :: "string set"
  locked :: bool

definition newRegistry :: "'w registry" where
  "newRegistry = \<lparr>modules = [], names = {}, locked = False\<rparr>"

definition register :: "'w module \<Rightarrow> 'w registry \<Rightarrow> err option \<times> 'w registry" where
  "register module r =
     (if locked r then (Some ErrRegistrationClosed, r)
      else let name = Name module in
        if name = '''' then (Some ErrModuleNameEmpty, r)
        else if name \<in> names r
          then (Some (Errorf ''%w: %s'' [name] ErrModuleAlreadyRegistered), r)
        else (None, r\<lparr>names := insert name (names r), modules := modules r @ [module]\<rparr>))"

definition lock :: "'w registry \<Rightarrow> 'w registry" where
  "lock r = r\<lparr>locked := True\<rparr>"

text \<open>\<^verbatim>\<open>getAll\<close> copies the slice; a HOL list is a value, so the copy is the list.\<close>

definition getAll :: "'w registry \<Rightarrow> 'w module list" where
  "getAll r = modules r"

text \<open>
  The registry's invariant: the name set is the set of the registered names, and no name
  is registered twice. It holds of \<open>newRegistry\<close> and is kept by \<open>register\<close> and \<open>lock\<close>.
\<close>

definition registry_inv :: "'w registry \<Rightarrow> bool" where
  "registry_inv r = (names r = set (map Name (modules r)) \<and> distinct (map Name (modules r)))"

section \<open>The coordinator's state\<close>

text \<open>
  The \<^verbatim>\<open>Application\<close> struct (its \<^verbatim>\<open>meta\<close> fields flattened), together with what the
  coordinator acts on: \<open>world\<close>, the state the modules and hooks read and change;
  \<open>calls\<close>, the record of every module method and hook callback invoked, with what it
  returned, in order; and \<open>logged\<close>, what was handed to the \<^verbatim>\<open>Logger\<close>.
\<close>

datatype phase = PInit | PStart | PStop

datatype hook_point = HBeforeStart | HAfterStart | HBeforeStop | HAfterStop

datatype target = Method phase string | Callback hook_point

datatype call = Called target "err option"

datatype log_arg = S string | E "err option"

datatype log_entry = Info string "log_arg list" | Error string "log_arg list"

record 'w system =
  meta_name :: string
  meta_version :: string
  meta_environment :: string
  meta_startTime :: int
  meta_stopTime :: int
  registry :: "'w registry"
  hooks :: "'w hook list"
  isRunning :: bool
  shutdownTimeout :: int
  world :: 'w
  calls :: "call list"
  logged :: "log_entry list"

fun call_target :: "call \<Rightarrow> target" where
  "call_target (Called t r) = t"

fun call_result :: "call \<Rightarrow> err option" where
  "call_result (Called t r) = r"

definition logInfo :: "string \<Rightarrow> log_arg list \<Rightarrow> 'w system \<Rightarrow> 'w system" where
  "logInfo msg args s = s\<lparr>logged := logged s @ [Info msg args]\<rparr>"

definition logError :: "string \<Rightarrow> log_arg list \<Rightarrow> 'w system \<Rightarrow> 'w system" where
  "logError msg args s = s\<lparr>logged := logged s @ [Error msg args]\<rparr>"

fun method_of :: "phase \<Rightarrow> 'w module \<Rightarrow> 'w action" where
  "method_of PInit m = Init m"
| "method_of PStart m = Start m"
| "method_of PStop m = Stop m"

fun callback :: "hook_point \<Rightarrow> 'w hook \<Rightarrow> 'w action option" where
  "callback HBeforeStart h = BeforeStart h"
| "callback HAfterStart h = AfterStart h"
| "callback HBeforeStop h = BeforeStop h"
| "callback HAfterStop h = AfterStop h"

text \<open>One call of a module method: it runs on the world, and the call is recorded.\<close>

definition invoke :: "phase \<Rightarrow> 'w module \<Rightarrow> Context \<Rightarrow> 'w system \<Rightarrow> err option \<times> 'w system" where
  "invoke p m ctx s =
     (case method_of p m ctx (world s) of
        (r, w) \<Rightarrow> (r, s\<lparr>world := w, calls := calls s @ [Called (Method p (Name m)) r]\<rparr>))"

definition invokeHook :: "hook_point \<Rightarrow> 'w action \<Rightarrow> Context \<Rightarrow> 'w system \<Rightarrow> err option \<times> 'w system" where
  "invokeHook p f ctx s =
     (case f ctx (world s) of
        (r, w) \<Rightarrow> (r, s\<lparr>world := w, calls := calls s @ [Called (Callback p) r]\<rparr>))"

section \<open>The runner\<close>

fun initLoop :: "Context \<Rightarrow> 'w module list \<Rightarrow> 'w system \<Rightarrow> err option \<times> 'w system" where
  "initLoop ctx [] s = (None, s)"
| "initLoop ctx (m # ms) s =
     (let s1 = logInfo ''initializing module'' [S ''module'', S (Name m)] s in
      case invoke PInit m ctx s1 of
        (Some e, s2) \<Rightarrow> (Some (Errorf ''init module %q: %w'' [Name m] e), s2)
      | (None, s2) \<Rightarrow> initLoop ctx ms s2)"

definition initAll :: "Context \<Rightarrow> 'w system \<Rightarrow> err option \<times> 'w system" where
  "initAll ctx s = initLoop ctx (getAll (registry s)) s"

text \<open>
  The loop of \<^verbatim>\<open>shutdownModules\<close>, \<^verbatim>\<open>for i := len(modules) - 1; i >= 0; i--\<close>: the
  numeric argument is the number of modules still to stop, so \<open>Suc i\<close> stands for the
  source's index \<open>i\<close>, which is below \<open>length ms\<close> whenever the loop is entered from
  \<open>shutdownModules\<close>.
\<close>

fun shutdownLoop ::
  "Context \<Rightarrow> 'w module list \<Rightarrow> nat \<Rightarrow> err list \<Rightarrow> 'w system \<Rightarrow> err list \<times> 'w system" where
  "shutdownLoop ctx ms 0 errs s = (errs, s)"
| "shutdownLoop ctx ms (Suc i) errs s =
     (let m = ms ! i;
          s1 = logInfo ''stopping module'' [S ''module'', S (Name m)] s in
      case invoke PStop m ctx s1 of
        (Some e, s2) \<Rightarrow>
          (let wrappedErr = Errorf ''stop module %q: %w'' [Name m] e;
               s3 = logError ''failed to stop module''
                      [S ''module'', S (Name m), S ''error'', E (Some e)] s2
           in shutdownLoop ctx ms i (errs @ [wrappedErr]) s3)
      | (None, s2) \<Rightarrow> shutdownLoop ctx ms i errs s2)"

definition shutdownModules ::
  "Context \<Rightarrow> 'w module list \<Rightarrow> 'w system \<Rightarrow> err option \<times> 'w system" where
  "shutdownModules ctx ms s =
     (case shutdownLoop ctx ms (length ms) [] s of
        (errs, s') \<Rightarrow> (errors_Join (map Some errs), s'))"

definition shutdownAll :: "Context \<Rightarrow> 'w system \<Rightarrow> err option \<times> 'w system" where
  "shutdownAll ctx s = shutdownModules ctx (getAll (registry s)) s"

text \<open>
  \<^verbatim>\<open>startAll\<close> returns \<^verbatim>\<open>(startedModules, err)\<close>: the nil slice is \<open>None\<close>.
\<close>

fun startLoop ::
  "Context \<Rightarrow> 'w module list \<Rightarrow> 'w module list \<Rightarrow> 'w system
     \<Rightarrow> ('w module list option \<times> err option) \<times> 'w system" where
  "startLoop ctx [] started s = ((Some started, None), s)"
| "startLoop ctx (m # ms) started s =
     (let s1 = logInfo ''starting module'' [S ''module'', S (Name m)] s in
      case invoke PStart m ctx s1 of
        (Some e, s2) \<Rightarrow>
          (case shutdownModules Background started s2 of
             (shutdownErr, s3) \<Rightarrow>
               ((None, errors_Join [Some (Errorf ''start module %q: %w'' [Name m] e), shutdownErr]),
                s3))
      | (None, s2) \<Rightarrow> startLoop ctx ms (started @ [m]) s2)"

definition startAll ::
  "Context \<Rightarrow> 'w system \<Rightarrow> ('w module list option \<times> err option) \<times> 'w system" where
  "startAll ctx s = startLoop ctx (getAll (registry s)) [] s"

section \<open>Hooks\<close>

text \<open>
  The four \<^verbatim>\<open>runHooks...\<close> functions are one loop over the hooks, each reading its own
  field: a nil callback is skipped, the first error is returned.
\<close>

fun runHooks :: "hook_point \<Rightarrow> Context \<Rightarrow> 'w hook list \<Rightarrow> 'w system \<Rightarrow> err option \<times> 'w system" where
  "runHooks p ctx [] s = (None, s)"
| "runHooks p ctx (h # hs) s =
     (case callback p h of
        None \<Rightarrow> runHooks p ctx hs s
      | Some f \<Rightarrow>
          (case invokeHook p f ctx s of
             (Some e, s1) \<Rightarrow> (Some e, s1)
           | (None, s1) \<Rightarrow> runHooks p ctx hs s1))"

definition runHooksBeforeStart :: "Context \<Rightarrow> 'w system \<Rightarrow> err option \<times> 'w system" where
  "runHooksBeforeStart ctx s = runHooks HBeforeStart ctx (hooks s) s"

definition runHooksAfterStart :: "Context \<Rightarrow> 'w system \<Rightarrow> err option \<times> 'w system" where
  "runHooksAfterStart ctx s = runHooks HAfterStart ctx (hooks s) s"

definition runHooksBeforeStop :: "Context \<Rightarrow> 'w system \<Rightarrow> err option \<times> 'w system" where
  "runHooksBeforeStop ctx s = runHooks HBeforeStop ctx (hooks s) s"

definition runHooksAfterStop :: "Context \<Rightarrow> 'w system \<Rightarrow> err option \<times> 'w system" where
  "runHooksAfterStop ctx s = runHooks HAfterStop ctx (hooks s) s"

section \<open>The application\<close>

definition enrichContext :: "'w system \<Rightarrow> Context \<Rightarrow> Context" where
  "enrichContext s ctx =
     WithValue
       (WithValue
          (WithValue
             (WithValue ctx contextKeyAppName (StringVal (meta_name s)))
             contextKeyAppVersion (StringVal (meta_version s)))
          contextKeyAppEnvironment (StringVal (meta_environment s)))
       contextKeyAppStartTime (TimeVal (meta_startTime s))"

text \<open>
  What the run depends on and the coordinator does not decide: the two readings of the
  clock; whether the run context is cancelled by the time the \<^verbatim>\<open>select\<close> of \<^verbatim>\<open>Run\<close>
  looks at it (by the caller, or by the signal listener on a signal, which then logs it
  first); the scheduler's choice when both cases of that \<^verbatim>\<open>select\<close> are ready; and the
  race of \<^verbatim>\<open>shutdown\<close>: \<open>None\<close> when the result of \<^verbatim>\<open>shutdownAll\<close> arrives first, \<open>Some k\<close>
  when the timer fires first, the abandoned goroutine having completed \<open>k\<close> calls of
  \<^verbatim>\<open>Stop\<close> by then.
\<close>

datatype cancellation = NotCancelled | CallerCancels | SignalArrives string

record env =
  now_start :: int
  now_stop :: int
  cancelled :: cancellation
  bg_first :: bool
  timer_race :: "nat option"

text \<open>
  A buffered channel of errors as its receiver will find it: the values sent to it, in
  order, and whether it is closed after them. The nil channel is \<open>None\<close>.
\<close>

record chan =
  buffer :: "err list"
  closed :: bool

text \<open>
  One reader goroutine of \<^verbatim>\<open>collectBackgroundErrors\<close>: what it forwards to the fan-in
  channel, and whether it ever finishes (\<^verbatim>\<open>wg.Done\<close>).
\<close>

fun forwards :: "string \<Rightarrow> chan_signal \<Rightarrow> err list" where
  "forwards name (Sends (Some e)) = [Errorf ''background module %q: %w'' [name] e]"
| "forwards name sig = []"

fun finishes :: "chan_signal \<Rightarrow> bool" where
  "finishes NeverSignals = False"
| "finishes sig = True"

text \<open>
  The type assertion \<^verbatim>\<open>m.(BackgroundModule)\<close>: the module's name and what its channel
  will show, when it has the capability.
\<close>

definition asBackgroundModule :: "'w module \<Rightarrow> (string \<times> chan_signal) option" where
  "asBackgroundModule m = (case Err m of None \<Rightarrow> None | Some sig \<Rightarrow> Some (Name m, sig))"

text \<open>
  The fan-in channel is closed by the goroutine that waits for every reader, so it is
  closed exactly when all readers finish. Readers forward in the order of the modules.
\<close>

definition collectBackgroundErrors :: "'w system \<Rightarrow> chan option" where
  "collectBackgroundErrors s =
     (let modules = getAll (registry s);
          bgModules = List.map_filter asBackgroundModule modules in
      if length bgModules = 0 then None
      else Some \<lparr>buffer = concat (map (\<lambda>(name, sig). forwards name sig) bgModules),
                 closed = list_all (\<lambda>(name, sig). finishes sig) bgModules\<rparr>)"

text \<open>
  A receive: on the nil channel it blocks for ever; on a closed and drained channel it
  yields the zero value, nil, at once.
\<close>

datatype recv = RecvBlocks | Recv "err option"

fun receive :: "chan option \<Rightarrow> recv" where
  "receive None = RecvBlocks"
| "receive (Some c) =
     (case buffer c of
        e # es \<Rightarrow> Recv (Some e)
      | [] \<Rightarrow> if closed c then Recv None else RecvBlocks)"

text \<open>The \<^verbatim>\<open>select\<close> of \<^verbatim>\<open>Run\<close> between \<^verbatim>\<open>ctx.Done()\<close> and the fan-in channel.\<close>

datatype selected = SelectBlocks | CtxDone | BgErr "err option"

definition select_run :: "env \<Rightarrow> chan option \<Rightarrow> selected" where
  "select_run ev bgErrCh =
     (case receive bgErrCh of
        RecvBlocks \<Rightarrow> if cancelled ev = NotCancelled then SelectBlocks else CtxDone
      | Recv bgErr \<Rightarrow>
          if cancelled ev = NotCancelled then BgErr bgErr
          else if bg_first ev then BgErr bgErr else CtxDone)"

text \<open>
  The stop race of \<^verbatim>\<open>shutdown\<close>. When the timer wins, the goroutine running
  \<^verbatim>\<open>shutdownAll\<close> is abandoned: the \<open>k\<close> calls of \<^verbatim>\<open>Stop\<close> it has completed are those of
  the last \<open>k\<close> modules, and its result is never read.
\<close>

definition stopRace :: "env \<Rightarrow> 'w system \<Rightarrow> err option \<times> 'w system" where
  "stopRace ev s =
     (if shutdownTimeout s > 0 then
        (let shutdownCtx = WithTimeout Background (shutdownTimeout s) in
         case timer_race ev of
           None \<Rightarrow> shutdownAll shutdownCtx s
         | Some k \<Rightarrow>
             (let ms = getAll (registry s) in
              (Some ErrGracefulShutdownTimedOut,
               snd (shutdownModules shutdownCtx (drop (length ms - k) ms) s))))
      else shutdownAll Background s)"

definition shutdown :: "env \<Rightarrow> 'w system \<Rightarrow> err option \<times> 'w system" where
  "shutdown ev s =
     (let hookCtx = Background;
          (beforeErr, s1) = runHooksBeforeStop hookCtx s;
          s2 = (case beforeErr of
                  Some e \<Rightarrow> logError ''before stop hook failed'' [S ''error'', E (Some e)] s1
                | None \<Rightarrow> s1);
          (shutdownErr, s3) = stopRace ev s2;
          s4 = (case shutdownErr of
                  Some e \<Rightarrow> logError ''shutdown completed with errors'' [S ''error'', E (Some e)] s3
                | None \<Rightarrow> logInfo ''shutdown completed successfully'' [] s3);
          (afterErr, s5) = runHooksAfterStop hookCtx s4;
          (result, s6) =
             (case afterErr of
                Some e \<Rightarrow>
                  (errors_Join [shutdownErr, Some (Errorf ''after stop hook: %w'' [] e)],
                   logError ''after stop hook failed'' [S ''error'', E (Some e)] s5)
              | None \<Rightarrow> (shutdownErr, s5))
      in (result, s6\<lparr>meta_stopTime := now_stop ev, isRunning := False\<rparr>))"

text \<open>
  \<^verbatim>\<open>Run\<close> either returns an error or nil, or blocks for ever on its \<^verbatim>\<open>select\<close>.
\<close>

datatype 'w outcome = Returned "err option" "'w system" | Blocked "'w system"

text \<open>What a run returned, if it returned, and the state it left.\<close>

fun returned :: "'w outcome \<Rightarrow> err option option" where
  "returned (Returned r s) = Some r"
| "returned (Blocked s) = None"

fun state_of :: "'w outcome \<Rightarrow> 'w system" where
  "state_of (Returned r s) = s"
| "state_of (Blocked s) = s"

text \<open>
  \<^verbatim>\<open>Run\<close> is written in three parts. \<open>enter\<close> is its opening, after the compare-and-swap
  of the run-state flag: the registry is locked, the context derived, the start time
  stamped, the context enriched, the first line logged. \<open>await\<close> is its end, after the
  AfterStart hooks: the background errors are collected, the \<^verbatim>\<open>select\<close> waits, and
  \<^verbatim>\<open>shutdown\<close> runs. \<open>Run\<close> itself is the flag and the phases between the two.
\<close>

definition enter :: "env \<Rightarrow> Context \<Rightarrow> 'w system \<Rightarrow> Context \<times> 'w system" where
  "enter ev ctx s =
     (let s1 = s\<lparr>registry := lock (registry s)\<rparr>;
          ctx1 = WithCancel ctx;
          s2 = s1\<lparr>meta_startTime := now_start ev\<rparr>
      in (enrichContext s2 ctx1, logInfo ''initializing modules'' [] s2))"

definition await :: "env \<Rightarrow> 'w system \<Rightarrow> 'w outcome" where
  "await ev s =
     (let bgErrCh = collectBackgroundErrors s;
          s1 = logInfo ''application started'' [] s;
          s2 = (case cancelled ev of
                  SignalArrives sg \<Rightarrow> logInfo ''received signal'' [S ''signal'', S sg] s1
                | _ \<Rightarrow> s1) in
      case select_run ev bgErrCh of
        SelectBlocks \<Rightarrow> Blocked s2
      | CtxDone \<Rightarrow>
          (case shutdown ev (logInfo ''shutdown signal received'' [] s2) of
             (r, s3) \<Rightarrow> Returned r s3)
      | BgErr bgErr \<Rightarrow>
          (case shutdown ev (logError ''background module failed'' [S ''error'', E bgErr] s2) of
             (r, s3) \<Rightarrow> Returned r s3))"

definition Run :: "env \<Rightarrow> Context \<Rightarrow> 'w system \<Rightarrow> 'w outcome" where
  "Run ev ctx0 s0 =
     (if isRunning s0 then Returned (Some ErrApplicationAlreadyRunning) s0
      else
        (case enter ev ctx0 (s0\<lparr>isRunning := True\<rparr>) of (ctx, s1) \<Rightarrow>
        (case initAll ctx s1 of
          (Some err, s2) \<Rightarrow> Returned (Some err) s2
        | (None, s2) \<Rightarrow>
        (case runHooksBeforeStart ctx s2 of
          (Some err, s3) \<Rightarrow> Returned (Some (Errorf ''before start hook: %w'' [] err)) s3
        | (None, s3) \<Rightarrow>
        (case startAll ctx (logInfo ''starting modules'' [] s3) of
          ((startedModules, Some err), s4) \<Rightarrow> Returned (Some err) s4
        | ((startedModules, None), s4) \<Rightarrow>
        (case runHooksAfterStart ctx s4 of
          (Some err, s5) \<Rightarrow>
            (let s6 = logError ''after start hook failed, shutting down''
                        [S ''error'', E (Some err)] s5;
                 (shutdownErr, s7) =
                    shutdownModules Background
                      (case startedModules of None \<Rightarrow> [] | Some ms \<Rightarrow> ms) s6
             in Returned
                  (errors_Join [Some (Errorf ''after start hook: %w'' [] err), shutdownErr]) s7)
        | (None, s5) \<Rightarrow> await ev s5))))))"

section \<open>Describing what the modules do\<close>

text \<open>
  The results of calling one method on each module of a list in turn, each call on the
  world the calls before it left. It says of a module sequence which calls succeed and
  which fail, apart from any code of the coordinator.
\<close>

fun outcomes :: "phase \<Rightarrow> Context \<Rightarrow> 'w module list \<Rightarrow> 'w \<Rightarrow> err option list" where
  "outcomes p ctx [] w = []"
| "outcomes p ctx (m # ms) w =
     (case method_of p m ctx w of (r, w') \<Rightarrow> r # outcomes p ctx ms w')"

text \<open>The entry a recorded call of \<^verbatim>\<open>Stop\<close> contributes to the joined stop error.\<close>

fun stop_failure :: "call \<Rightarrow> err option" where
  "stop_failure (Called (Method PStop name) (Some e)) =
     Some (Errorf ''stop module %q: %w'' [name] e)"
| "stop_failure c = None"

text \<open>The calls recorded between two states.\<close>

definition new_calls :: "'w system \<Rightarrow> 'w system \<Rightarrow> call list" where
  "new_calls s s' = drop (length (calls s)) (calls s')"

text \<open>What the runner and the hooks leave alone in the coordinator's own state.\<close>

definition frame :: "'w system \<Rightarrow> 'w system \<Rightarrow> bool" where
  "frame s s' = (registry s' = registry s \<and> hooks s' = hooks s \<and> isRunning s' = isRunning s
     \<and> shutdownTimeout s' = shutdownTimeout s)"

section \<open>Example modules and systems\<close>

text \<open>
  Concrete modules over a world that counts the calls made, for evaluating the
  definitions: a method that succeeds, and one that fails with a given message.
\<close>

definition succeed :: "nat action" where
  "succeed ctx w = (None, Suc w)"

definition fail_with :: "string \<Rightarrow> nat action" where
  "fail_with msg ctx w = (Some (UserError msg), Suc w)"

definition example_module :: "string \<Rightarrow> nat action \<Rightarrow> nat action \<Rightarrow> nat action \<Rightarrow> nat module" where
  "example_module n i st sp = \<lparr>Name = n, Init = i, Start = st, Stop = sp, Err = None, Health = None\<rparr>"

definition example_system :: "nat module list \<Rightarrow> nat hook list \<Rightarrow> nat system" where
  "example_system ms hs =
     \<lparr>meta_name = ''app'', meta_version = ''1.0'', meta_environment = ''test'',
      meta_startTime = 0, meta_stopTime = 0,
      registry = \<lparr>modules = ms, names = set (map Name ms), locked = False\<rparr>,
      hooks = hs, isRunning = False, shutdownTimeout = 10,
      world = 0, calls = [], logged = []\<rparr>"

definition three_modules :: "nat module list" where
  "three_modules =
     [example_module ''a'' succeed succeed (fail_with ''stop a''),
      example_module ''b'' succeed succeed succeed,
      example_module ''c'' succeed (fail_with ''start c'') succeed]"

definition init_fails_second :: "nat module list" where
  "init_fails_second =
     [example_module ''a'' succeed succeed succeed,
      example_module ''b'' (fail_with ''init b'') succeed succeed,
      example_module ''c'' succeed succeed succeed]"

definition example_env :: env where
  "example_env =
     \<lparr>now_start = 100, now_stop = 200, cancelled = NotCancelled, bg_first = False,
      timer_race = None\<rparr>"

definition init_fails :: "nat module list" where
  "init_fails = [example_module ''bad'' (fail_with ''init failed'') succeed succeed]"

definition clean_background :: "nat module list" where
  "clean_background = [(example_module ''bg'' succeed succeed succeed)\<lparr>Err := Some Closes\<rparr>]"

definition one_module :: "nat module list" where
  "one_module = [example_module ''a'' succeed succeed (fail_with ''stop a'')]"

definition afterStart_fails :: "nat hook list" where
  "afterStart_fails =
     [\<lparr>BeforeStart = None, AfterStart = Some (fail_with ''not ready''), BeforeStop = None,
       AfterStop = None\<rparr>]"

section \<open>Properties of the registry\<close>

lemma registry_inv_new: "registry_inv newRegistry"
  by (simp add: registry_inv_def newRegistry_def)

lemma registry_inv_lock: "registry_inv r \<Longrightarrow> registry_inv (lock r)"
  by (simp add: registry_inv_def lock_def)

lemma getAll_lock: "getAll (lock r) = getAll r"
  by (simp add: getAll_def lock_def)

section \<open>Lemmas about the runner\<close>


lemma errors_Join_map_Some:
  "errors_Join (map Some es) = (case es of [] \<Rightarrow> None | x # xs \<Rightarrow> Some (Joined es))"
  by (cases es) (simp_all add: errors_Join_def List.map_filter_def comp_def)

lemma map_filter_id_map: "List.map_filter (\<lambda>e. e) (map f xs) = List.map_filter f xs"
  by (induction xs) (simp_all add: List.map_filter_def)

lemma errors_Join_map:
  "errors_Join (map f xs) = errors_Join (map Some (List.map_filter f xs))"
  by (simp add: errors_Join_def map_filter_id_map) (simp add: List.map_filter_def comp_def)

lemma logInfo_simps [simp]:
  "world (logInfo msg args s) = world s"
  "calls (logInfo msg args s) = calls s"
  "registry (logInfo msg args s) = registry s"
  "hooks (logInfo msg args s) = hooks s"
  "isRunning (logInfo msg args s) = isRunning s"
  "shutdownTimeout (logInfo msg args s) = shutdownTimeout s"
  by (simp_all add: logInfo_def)

lemma logError_simps [simp]:
  "world (logError msg args s) = world s"
  "calls (logError msg args s) = calls s"
  "registry (logError msg args s) = registry s"
  "hooks (logError msg args s) = hooks s"
  "isRunning (logError msg args s) = isRunning s"
  "shutdownTimeout (logError msg args s) = shutdownTimeout s"
  by (simp_all add: logError_def)

lemma invoke_simps [simp]:
  "fst (invoke p m ctx s) = fst (method_of p m ctx (world s))"
  "world (snd (invoke p m ctx s)) = snd (method_of p m ctx (world s))"
  "calls (snd (invoke p m ctx s)) = calls s @ [Called (Method p (Name m)) (fst (method_of p m ctx (world s)))]"
  "registry (snd (invoke p m ctx s)) = registry s"
  "hooks (snd (invoke p m ctx s)) = hooks s"
  "isRunning (snd (invoke p m ctx s)) = isRunning s"
  "shutdownTimeout (snd (invoke p m ctx s)) = shutdownTimeout s"
  by (simp_all add: invoke_def split: prod.splits)

lemma invokeHook_simps [simp]:
  "fst (invokeHook p f ctx s) = fst (f ctx (world s))"
  "world (snd (invokeHook p f ctx s)) = snd (f ctx (world s))"
  "calls (snd (invokeHook p f ctx s)) = calls s @ [Called (Callback p) (fst (f ctx (world s)))]"
  "registry (snd (invokeHook p f ctx s)) = registry s"
  "hooks (snd (invokeHook p f ctx s)) = hooks s"
  "isRunning (snd (invokeHook p f ctx s)) = isRunning s"
  "shutdownTimeout (snd (invokeHook p f ctx s)) = shutdownTimeout s"
  by (simp_all add: invokeHook_def split: prod.splits)

lemma shutdownLoop_calls:
  "i \<le> length ms \<Longrightarrow>
   \<exists>evs. calls (snd (shutdownLoop ctx ms i errs s)) = calls s @ evs
     \<and> map call_target evs = map (\<lambda>m. Method PStop (Name m)) (rev (take i ms))
     \<and> fst (shutdownLoop ctx ms i errs s) = errs @ List.map_filter stop_failure evs"
proof (induction i arbitrary: errs s)
  case 0
  then show ?case by simp
next
  case (Suc i)
  let ?m = "ms ! i"
  let ?s1 = "logInfo ''stopping module'' [S ''module'', S (Name ?m)] s"
  obtain r s2 where inv: "invoke PStop ?m ctx ?s1 = (r, s2)" by (cases "invoke PStop ?m ctx ?s1")
  have c2: "calls s2 = calls s @ [Called (Method PStop (Name ?m)) r]"
    using invoke_simps(1,3)[of PStop ?m ctx ?s1] inv by simp
  have tk: "rev (take (Suc i) ms) = ?m # rev (take i ms)"
    using Suc.prems by (simp add: take_Suc_conv_app_nth)
  have ile: "i \<le> length ms" using Suc.prems by simp
  show ?case
  proof (cases r)
    case None
    from Suc.IH[OF ile, of errs s2] obtain evs where
      e: "calls (snd (shutdownLoop ctx ms i errs s2)) = calls s2 @ evs"
         "map call_target evs = map (\<lambda>m. Method PStop (Name m)) (rev (take i ms))"
         "fst (shutdownLoop ctx ms i errs s2) = errs @ List.map_filter stop_failure evs"
      by blast
    show ?thesis
      apply (rule exI[of _ "Called (Method PStop (Name ?m)) None # evs"])
      using e c2 None inv tk by (simp add: Let_def)
  next
    case (Some e0)
    let ?s3 = "logError ''failed to stop module'' [S ''module'', S (Name ?m), S ''error'', E (Some e0)] s2"
    let ?errs = "errs @ [Errorf ''stop module %q: %w'' [Name ?m] e0]"
    from Suc.IH[OF ile, of ?errs ?s3] obtain evs where
      e: "calls (snd (shutdownLoop ctx ms i ?errs ?s3)) = calls ?s3 @ evs"
         "map call_target evs = map (\<lambda>m. Method PStop (Name m)) (rev (take i ms))"
         "fst (shutdownLoop ctx ms i ?errs ?s3) = ?errs @ List.map_filter stop_failure evs"
      by blast
    show ?thesis
      apply (rule exI[of _ "Called (Method PStop (Name ?m)) (Some e0) # evs"])
      using e c2 Some inv tk by (simp add: Let_def)
  qed
qed

lemma shutdownModules_calls:
  "\<exists>evs. calls (snd (shutdownModules ctx ms s)) = calls s @ evs
     \<and> map call_target evs = map (\<lambda>m. Method PStop (Name m)) (rev ms)
     \<and> fst (shutdownModules ctx ms s) = errors_Join (map stop_failure evs)"
proof -
  from shutdownLoop_calls[of "length ms" ms ctx "[]" s] obtain evs where
    e: "calls (snd (shutdownLoop ctx ms (length ms) [] s)) = calls s @ evs"
       "map call_target evs = map (\<lambda>m. Method PStop (Name m)) (rev ms)"
       "fst (shutdownLoop ctx ms (length ms) [] s) = List.map_filter stop_failure evs"
    by auto
  show ?thesis
    apply (rule exI[of _ evs])
    using e by (simp add: shutdownModules_def split: prod.splits) (metis errors_Join_map fst_conv snd_conv)
qed


lemma frame_refl [simp]: "frame s s"
  by (simp add: frame_def)

lemma frame_trans: "frame s s1 \<Longrightarrow> frame s1 s2 \<Longrightarrow> frame s s2"
  by (simp add: frame_def)

lemma frame_log [simp]: "frame s (logInfo msg args s)" "frame s (logError msg args s)"
  by (simp_all add: frame_def)

lemma frame_invoke [simp]: "frame s (snd (invoke p m ctx s))" "frame s (snd (invokeHook q f ctx s))"
  by (simp_all add: frame_def)

lemma frame_shutdownLoop: "frame s (snd (shutdownLoop ctx ms i errs s))"
proof (induction i arbitrary: errs s)
  case 0
  then show ?case by simp
next
  case (Suc i)
  let ?s1 = "logInfo ''stopping module'' [S ''module'', S (Name (ms ! i))] s"
  obtain r s2 where inv: "invoke PStop (ms ! i) ctx ?s1 = (r, s2)"
    by (cases "invoke PStop (ms ! i) ctx ?s1")
  have f2: "frame s s2"
    using frame_invoke(1)[of ?s1 PStop "ms ! i" ctx] inv frame_trans[OF frame_log(1)] by fastforce
  show ?case
  proof (cases r)
    case None
    then show ?thesis using inv Suc.IH[where s=s2 and errs=errs] f2 by (simp add: Let_def frame_trans)
  next
    case (Some e0)
    have "frame s (logError ''failed to stop module'' [S ''module'', S (Name (ms ! i)), S ''error'', E (Some e0)] s2)"
      using f2 frame_log(2) frame_trans by blast
    then show ?thesis using inv Some Suc.IH frame_trans by (fastforce simp: Let_def)
  qed
qed

lemma frame_shutdownModules: "frame s (snd (shutdownModules ctx ms s))"
  using frame_shutdownLoop[of s ctx ms "length ms" "[]"]
  by (cases "shutdownLoop ctx ms (length ms) [] s") (simp add: shutdownModules_def)

lemma frame_initLoop: "frame s (snd (initLoop ctx ms s))"
proof (induction ms arbitrary: s)
  case Nil
  then show ?case by simp
next
  case (Cons m ms)
  let ?s1 = "logInfo ''initializing module'' [S ''module'', S (Name m)] s"
  obtain r s2 where inv: "invoke PInit m ctx ?s1 = (r, s2)" by (cases "invoke PInit m ctx ?s1")
  have f2: "frame s s2"
    using frame_invoke(1)[of ?s1 PInit m ctx] inv frame_trans[OF frame_log(1)] by fastforce
  show ?case using inv f2 Cons.IH[of s2] frame_trans by (cases r) (fastforce simp: Let_def)+
qed

lemma frame_startLoop: "frame s (snd (startLoop ctx ms started s))"
proof (induction ms arbitrary: started s)
  case Nil
  then show ?case by simp
next
  case (Cons m ms)
  let ?s1 = "logInfo ''starting module'' [S ''module'', S (Name m)] s"
  obtain r s2 where inv: "invoke PStart m ctx ?s1 = (r, s2)" by (cases "invoke PStart m ctx ?s1")
  have f2: "frame s s2"
    using frame_invoke(1)[of ?s1 PStart m ctx] inv frame_trans[OF frame_log(1)] by fastforce
  show ?case
  proof (cases r)
    case None
    then show ?thesis using inv f2 Cons.IH[where s=s2 and started="started @ [m]"] frame_trans by (fastforce simp: Let_def)
  next
    case (Some e0)
    then show ?thesis
      using inv f2 frame_shutdownModules[of s2 Background started] frame_trans
      by (fastforce simp: Let_def split: prod.splits)
  qed
qed

lemma frame_runHooks: "frame s (snd (runHooks p ctx hs s))"
proof (induction hs arbitrary: s)
  case Nil
  then show ?case by simp
next
  case (Cons h hs)
  show ?case
  proof (cases "callback p h")
    case None
    then show ?thesis using Cons.IH by simp
  next
    case (Some f)
    obtain r s1 where inv: "invokeHook p f ctx s = (r, s1)" by (cases "invokeHook p f ctx s")
    have f1: "frame s s1" using frame_invoke(2)[of s p f ctx] inv by simp
    show ?thesis using Some inv f1 Cons.IH[of s1] frame_trans by (cases r) fastforce+
  qed
qed


lemma errors_Join_Some_Cons: "errors_Join (Some e # es) \<noteq> None"
  by (simp add: errors_Join_def)

lemma initLoop_ok:
  "outcomes PInit ctx ms (world s) = replicate (length ms) None \<Longrightarrow>
   fst (initLoop ctx ms s) = None \<and>
   calls (snd (initLoop ctx ms s)) = calls s @ map (\<lambda>m. Called (Method PInit (Name m)) None) ms"
proof (induction ms arbitrary: s)
  case Nil
  then show ?case by simp
next
  case (Cons m ms)
  let ?s1 = "logInfo ''initializing module'' [S ''module'', S (Name m)] s"
  obtain r s2 where inv: "invoke PInit m ctx ?s1 = (r, s2)" by (cases "invoke PInit m ctx ?s1")
  obtain r' w' where meth: "Init m ctx (world s) = (r', w')" by (cases "Init m ctx (world s)")
  have r: "r = r'" "world s2 = w'" "calls s2 = calls s @ [Called (Method PInit (Name m)) r']"
    using invoke_simps(1,2,3)[of PInit m ctx ?s1] inv meth by simp_all
  from Cons.prems meth have "r' = None" "outcomes PInit ctx ms w' = replicate (length ms) None"
    by simp_all
  then show ?case using Cons.IH[of s2] r inv by (simp add: Let_def)
qed

lemma initLoop_fail:
  "N < length ms \<Longrightarrow>
   outcomes PInit ctx (take (Suc N) ms) (world s) = replicate N None @ [Some e] \<Longrightarrow>
   fst (initLoop ctx ms s) = Some (Errorf ''init module %q: %w'' [Name (ms ! N)] e) \<and>
   calls (snd (initLoop ctx ms s)) =
     calls s @ map (\<lambda>m. Called (Method PInit (Name m)) None) (take N ms)
       @ [Called (Method PInit (Name (ms ! N))) (Some e)]"
proof (induction ms arbitrary: N s)
  case Nil
  then show ?case by simp
next
  case (Cons m ms)
  let ?s1 = "logInfo ''initializing module'' [S ''module'', S (Name m)] s"
  obtain r s2 where inv: "invoke PInit m ctx ?s1 = (r, s2)" by (cases "invoke PInit m ctx ?s1")
  obtain r' w' where meth: "Init m ctx (world s) = (r', w')" by (cases "Init m ctx (world s)")
  have r: "r = r'" "world s2 = w'" "calls s2 = calls s @ [Called (Method PInit (Name m)) r']"
    using invoke_simps(1,2,3)[of PInit m ctx ?s1] inv meth by simp_all
  show ?case
  proof (cases N)
    case 0
    with Cons.prems meth have "r' = Some e" by simp
    then show ?thesis using 0 r inv by (simp add: Let_def)
  next
    case (Suc n)
    with Cons.prems meth have h: "r' = None" "n < length ms"
      "outcomes PInit ctx (take (Suc n) ms) w' = replicate n None @ [Some e]"
      by simp_all
    show ?thesis using Cons.IH[of n s2] h r inv Suc by (simp add: Let_def)
  qed
qed

lemma startLoop_ok:
  "outcomes PStart ctx ms (world s) = replicate (length ms) None \<Longrightarrow>
   fst (startLoop ctx ms started s) = (Some (started @ ms), None) \<and>
   calls (snd (startLoop ctx ms started s)) =
     calls s @ map (\<lambda>m. Called (Method PStart (Name m)) None) ms"
proof (induction ms arbitrary: s started)
  case Nil
  then show ?case by simp
next
  case (Cons m ms)
  let ?s1 = "logInfo ''starting module'' [S ''module'', S (Name m)] s"
  obtain r s2 where inv: "invoke PStart m ctx ?s1 = (r, s2)" by (cases "invoke PStart m ctx ?s1")
  obtain r' w' where meth: "Start m ctx (world s) = (r', w')" by (cases "Start m ctx (world s)")
  have r: "r = r'" "world s2 = w'" "calls s2 = calls s @ [Called (Method PStart (Name m)) r']"
    using invoke_simps(1,2,3)[of PStart m ctx ?s1] inv meth by simp_all
  from Cons.prems meth have "r' = None" "outcomes PStart ctx ms w' = replicate (length ms) None"
    by simp_all
  then show ?case using Cons.IH[where s=s2 and started="started @ [m]"] r inv by (simp add: Let_def)
qed

lemma startLoop_success:
  "fst (startLoop ctx ms started s) = (st, None) \<Longrightarrow> st = Some (started @ ms)"
proof (induction ms arbitrary: s started)
  case Nil
  then show ?case by simp
next
  case (Cons m ms)
  let ?s1 = "logInfo ''starting module'' [S ''module'', S (Name m)] s"
  obtain r s2 where inv: "invoke PStart m ctx ?s1 = (r, s2)" by (cases "invoke PStart m ctx ?s1")
  show ?case
  proof (cases r)
    case None
    then show ?thesis using Cons.IH[where s=s2 and started="started @ [m]"] Cons.prems inv
      by (simp add: Let_def)
  next
    case (Some e0)
    obtain shutdownErr s3 where sm: "shutdownModules Background started s2 = (shutdownErr, s3)"
      by (cases "shutdownModules Background started s2")
    show ?thesis
      using Some Cons.prems inv sm
        errors_Join_Some_Cons[of "Errorf ''start module %q: %w'' [Name m] e0" "[shutdownErr]"]
      by (simp add: Let_def)
  qed
qed

lemma startLoop_fail:
  "N < length ms \<Longrightarrow>
   outcomes PStart ctx (take (Suc N) ms) (world s) = replicate N None @ [Some e] \<Longrightarrow>
   \<exists>evs. calls (snd (startLoop ctx ms started s)) =
       calls s @ map (\<lambda>m. Called (Method PStart (Name m)) None) (take N ms)
         @ [Called (Method PStart (Name (ms ! N))) (Some e)] @ evs
     \<and> map call_target evs = map (\<lambda>m. Method PStop (Name m)) (rev (started @ take N ms))
     \<and> fst (startLoop ctx ms started s) =
         (None, errors_Join [Some (Errorf ''start module %q: %w'' [Name (ms ! N)] e),
                             errors_Join (map stop_failure evs)])"
proof (induction ms arbitrary: N s started)
  case Nil
  then show ?case by simp
next
  case (Cons m ms)
  let ?s1 = "logInfo ''starting module'' [S ''module'', S (Name m)] s"
  obtain r s2 where inv: "invoke PStart m ctx ?s1 = (r, s2)" by (cases "invoke PStart m ctx ?s1")
  obtain r' w' where meth: "Start m ctx (world s) = (r', w')" by (cases "Start m ctx (world s)")
  have r: "r = r'" "world s2 = w'" "calls s2 = calls s @ [Called (Method PStart (Name m)) r']"
    using invoke_simps(1,2,3)[of PStart m ctx ?s1] inv meth by simp_all
  show ?case
  proof (cases N)
    case 0
    with Cons.prems meth have re: "r' = Some e" by simp
    obtain shutdownErr s3 where sm: "shutdownModules Background started s2 = (shutdownErr, s3)"
      by (cases "shutdownModules Background started s2")
    obtain evs where
      e: "calls s3 = calls s2 @ evs"
         "map call_target evs = map (\<lambda>m. Method PStop (Name m)) (rev started)"
         "shutdownErr = errors_Join (map stop_failure evs)"
      using shutdownModules_calls[of Background started s2] sm by auto
    show ?thesis
      apply (rule exI[of _ evs])
      using 0 r re inv e sm by (simp add: Let_def)
  next
    case (Suc n)
    with Cons.prems meth have h: "r' = None" "n < length ms"
      "outcomes PStart ctx (take (Suc n) ms) w' = replicate n None @ [Some e]"
      by simp_all
    from Cons.IH[where N=n and s=s2 and started="started @ [m]"] h r obtain evs where
      e: "calls (snd (startLoop ctx ms (started @ [m]) s2)) =
            calls s2 @ map (\<lambda>m. Called (Method PStart (Name m)) None) (take n ms)
              @ [Called (Method PStart (Name (ms ! n))) (Some e)] @ evs"
         "map call_target evs = map (\<lambda>m. Method PStop (Name m)) (rev ((started @ [m]) @ take n ms))"
         "fst (startLoop ctx ms (started @ [m]) s2) =
            (None, errors_Join [Some (Errorf ''start module %q: %w'' [Name (ms ! n)] e),
                                errors_Join (map stop_failure evs)])"
      by auto
    show ?thesis
      apply (rule exI[of _ evs])
      using Suc r h inv e by (simp add: Let_def)
  qed
qed


lemma new_calls_append: "calls s' = calls s @ evs \<Longrightarrow> new_calls s s' = evs"
  by (simp add: new_calls_def)

section \<open>Rollback of a failed start\<close>

text \<open>
  Claim C2. Take any module sequence in which \<^verbatim>\<open>Start\<close>, called on the modules in
  registration order, succeeds at positions \<open>0..N-1\<close> and fails at position \<open>N\<close> with
  \<open>e\<close>. Then \<^verbatim>\<open>startAll\<close> makes exactly these calls: \<^verbatim>\<open>Start\<close> on the modules \<open>0..N\<close>
  in order and on none after \<open>N\<close>, then \<^verbatim>\<open>Stop\<close> on the modules \<open>N-1\<close> down to \<open>0\<close>,
  every one of them whatever the earlier calls of \<^verbatim>\<open>Stop\<close> returned. It returns no
  started list, and the join of the start failure, wrapped with the name of module
  \<open>N\<close>, with the join of the wrapped failures of the rollback's calls of \<^verbatim>\<open>Stop\<close>.
\<close>

theorem startAll_rollback:
  assumes "N < length (getAll (registry s))"
    and "outcomes PStart ctx (take (Suc N) (getAll (registry s))) (world s)
           = replicate N None @ [Some e]"
  shows "calls (snd (startAll ctx s)) = calls s @ new_calls s (snd (startAll ctx s))
    \<and> map call_target (new_calls s (snd (startAll ctx s))) =
        map (\<lambda>m. Method PStart (Name m)) (take (Suc N) (getAll (registry s)))
          @ map (\<lambda>m. Method PStop (Name m)) (rev (take N (getAll (registry s))))
    \<and> map call_result (take (Suc N) (new_calls s (snd (startAll ctx s)))) = replicate N None @ [Some e]
    \<and> fst (startAll ctx s) =
        (None, errors_Join
           [Some (Errorf ''start module %q: %w'' [Name (getAll (registry s) ! N)] e),
            errors_Join (map stop_failure (drop (Suc N) (new_calls s (snd (startAll ctx s)))))])"
proof -
  let ?ms = "getAll (registry s)"
  from startLoop_fail[OF assms, of "[]"] obtain evs where
    e: "calls (snd (startLoop ctx ?ms [] s)) =
          calls s @ map (\<lambda>m. Called (Method PStart (Name m)) None) (take N ?ms)
            @ [Called (Method PStart (Name (?ms ! N))) (Some e)] @ evs"
       "map call_target evs = map (\<lambda>m. Method PStop (Name m)) (rev (take N ?ms))"
       "fst (startLoop ctx ?ms [] s) =
          (None, errors_Join [Some (Errorf ''start module %q: %w'' [Name (?ms ! N)] e),
                              errors_Join (map stop_failure evs)])"
    by auto
  let ?new = "map (\<lambda>m. Called (Method PStart (Name m)) None) (take N ?ms)
            @ [Called (Method PStart (Name (?ms ! N))) (Some e)] @ evs"
  have n: "new_calls s (snd (startAll ctx s)) = ?new"
    using e(1) by (simp add: startAll_def new_calls_def)
  have len: "length (take N ?ms) = N" using assms(1) by simp
  have tk: "take (Suc N) ?ms = take N ?ms @ [?ms ! N]"
    using assms(1) by (simp add: take_Suc_conv_app_nth)
  show ?thesis
    unfolding n using e len tk by (simp add: startAll_def comp_def map_replicate_const)
qed

text \<open>
  The rollback on three modules: \<open>c\<close> fails to start, and \<open>a\<close> fails to stop during
  the rollback.
\<close>

theorem startAll_rollback_witness:
  "outcomes PStart Background (take (Suc 2) (getAll (registry (example_system three_modules []))))
       (world (example_system three_modules [])) = replicate 2 None @ [Some (UserError ''start c'')]
   \<and> map call_target (calls (snd (startAll Background (example_system three_modules [])))) =
       [Method PStart ''a'', Method PStart ''b'', Method PStart ''c'', Method PStop ''b'', Method PStop ''a'']
   \<and> fst (startAll Background (example_system three_modules [])) =
       (None, Some (Joined [Errorf ''start module %q: %w'' [''c''] (UserError ''start c''),
                            Joined [Errorf ''stop module %q: %w'' [''a''] (UserError ''stop a'')]]))"
proof -
  let ?s = "example_system three_modules []"
  have h1: "2 < length (getAll (registry ?s))"
    by (simp add: example_system_def three_modules_def getAll_def)
  have h2: "outcomes PStart Background (take (Suc 2) (getAll (registry ?s))) (world ?s)
              = replicate 2 None @ [Some (UserError ''start c'')]"
    by (simp add: example_system_def three_modules_def getAll_def example_module_def
        succeed_def fail_with_def numeral_2_eq_2)
  have c: "calls ?s = []" by (simp add: example_system_def)
  have ms: "getAll (registry ?s) = three_modules" by (simp add: example_system_def getAll_def)
  note th = startAll_rollback[OF h1 h2]
  have tg: "map call_target (calls (snd (startAll Background ?s))) =
       [Method PStart ''a'', Method PStart ''b'', Method PStart ''c'', Method PStop ''b'', Method PStop ''a'']"
    using th c unfolding ms by (simp add: three_modules_def example_module_def numeral_2_eq_2)
  have "fst (startAll Background ?s) =
       (None, Some (Joined [Errorf ''start module %q: %w'' [''c''] (UserError ''start c''),
                            Joined [Errorf ''stop module %q: %w'' [''a''] (UserError ''stop a'')]]))"
    by (simp add: startAll_def example_system_def three_modules_def getAll_def example_module_def
        succeed_def fail_with_def shutdownModules_def invoke_def logInfo_def logError_def
        errors_Join_def Let_def numeral_2_eq_2)
  with h2 tg show ?thesis by simp
qed

section \<open>Stopping modules\<close>

lemma length_map_filter:
  "length (List.map_filter f xs) = length (filter (\<lambda>x. f x \<noteq> None) xs)"
  by (simp add: List.map_filter_def)

lemma stop_failure_None:
  "call_target c = Method PStop n \<Longrightarrow> (stop_failure c \<noteq> None) = (call_result c \<noteq> None)"
  by (cases c rule: stop_failure.cases) auto

lemma stop_failure_filter:
  "map call_target evs = map (\<lambda>m. Method PStop (Name m)) ms \<Longrightarrow>
   filter (\<lambda>c. stop_failure c \<noteq> None) evs = filter (\<lambda>c. call_result c \<noteq> None) evs"
proof (induction evs arbitrary: ms)
  case Nil
  then show ?case by simp
next
  case (Cons c evs)
  then obtain m ms' where ms: "ms = m # ms'" by (cases ms) auto
  with Cons.prems have t: "call_target c = Method PStop (Name m)"
    and r: "map call_target evs = map (\<lambda>m. Method PStop (Name m)) ms'" by simp_all
  show ?case using Cons.IH[OF r] stop_failure_None[OF t] by simp
qed

text \<open>
  Claim C5. For every list of modules, \<^verbatim>\<open>shutdownModules\<close> adds to the record of calls
  exactly one call of \<^verbatim>\<open>Stop\<close> per module of the list, in reverse list order, whatever
  the calls return. Its result is nil when no recorded call of \<^verbatim>\<open>Stop\<close> failed, and
  otherwise the join of the name-wrapped errors of the failed calls, one entry for each
  failed call. \<^verbatim>\<open>shutdownAll\<close> is \<^verbatim>\<open>shutdownModules\<close> on the registry's snapshot.
\<close>

theorem shutdownModules_stops_all:
  "calls (snd (shutdownModules ctx ms s)) = calls s @ new_calls s (snd (shutdownModules ctx ms s))
   \<and> map call_target (new_calls s (snd (shutdownModules ctx ms s)))
       = map (\<lambda>m. Method PStop (Name m)) (rev ms)
   \<and> fst (shutdownModules ctx ms s)
       = (case List.map_filter stop_failure (new_calls s (snd (shutdownModules ctx ms s))) of
            [] \<Rightarrow> None
          | e # es \<Rightarrow> Some (Joined (e # es)))
   \<and> length (List.map_filter stop_failure (new_calls s (snd (shutdownModules ctx ms s))))
       = length (filter (\<lambda>c. call_result c \<noteq> None) (new_calls s (snd (shutdownModules ctx ms s))))
   \<and> shutdownAll ctx s = shutdownModules ctx (getAll (registry s)) s"
proof -
  obtain evs where
    e: "calls (snd (shutdownModules ctx ms s)) = calls s @ evs"
       "map call_target evs = map (\<lambda>m. Method PStop (Name m)) (rev ms)"
       "fst (shutdownModules ctx ms s) = errors_Join (map stop_failure evs)"
    using shutdownModules_calls[of ctx ms s] by blast
  have n: "new_calls s (snd (shutdownModules ctx ms s)) = evs"
    using e(1) by (rule new_calls_append)
  have j: "errors_Join (map stop_failure evs)
             = (case List.map_filter stop_failure evs of [] \<Rightarrow> None | e # es \<Rightarrow> Some (Joined (e # es)))"
    by (simp add: errors_Join_def map_filter_id_map)
  have l: "length (List.map_filter stop_failure evs) = length (filter (\<lambda>c. call_result c \<noteq> None) evs)"
    using stop_failure_filter[OF e(2)] by (simp add: length_map_filter)
  show ?thesis unfolding n using e j l by (simp add: shutdownAll_def)
qed

text \<open>Stopping three modules of which the first registered fails to stop.\<close>

theorem shutdownModules_stops_all_witness:
  "map call_target (calls (snd (shutdownModules Background three_modules (example_system [] []))))
     = [Method PStop ''c'', Method PStop ''b'', Method PStop ''a'']
   \<and> fst (shutdownModules Background three_modules (example_system [] []))
     = Some (Joined [Errorf ''stop module %q: %w'' [''a''] (UserError ''stop a'')])"
proof -
  let ?s = "example_system [] []"
  let ?r = "shutdownModules Background three_modules ?s"
  have c: "calls ?s = []" by (simp add: example_system_def)
  note th = shutdownModules_stops_all[of Background three_modules ?s]
  have n: "new_calls ?s (snd ?r) = calls (snd ?r)" using c by (simp add: new_calls_def)
  have tg: "map call_target (calls (snd ?r)) = [Method PStop ''c'', Method PStop ''b'', Method PStop ''a'']"
    using th unfolding n by (simp add: three_modules_def example_module_def)
  have cs: "calls (snd ?r) = [Called (Method PStop ''c'') None, Called (Method PStop ''b'') None,
      Called (Method PStop ''a'') (Some (UserError ''stop a''))]"
    by (simp add: shutdownModules_def example_system_def three_modules_def example_module_def
        succeed_def fail_with_def invoke_def logInfo_def logError_def Let_def numeral_3_eq_3)
  have "fst ?r = Some (Joined [Errorf ''stop module %q: %w'' [''a''] (UserError ''stop a'')])"
    using th unfolding n cs by simp
  with tg show ?thesis by simp
qed

section \<open>Initialisation\<close>

text \<open>
  Claim C7. \<^verbatim>\<open>initAll\<close> calls \<^verbatim>\<open>Init\<close> on the modules in registration order. When every
  call succeeds it returns nil, having called \<^verbatim>\<open>Init\<close> once on each module. When the calls
  at positions \<open>0..N-1\<close> succeed and the one at position \<open>N\<close> fails with \<open>e\<close>, it returns
  \<open>e\<close> wrapped with the name of module \<open>N\<close>, and the calls it made are \<^verbatim>\<open>Init\<close> on the
  modules \<open>0..N\<close> and nothing else: no \<^verbatim>\<open>Init\<close> on a later module, no \<^verbatim>\<open>Stop\<close> on any.
\<close>

theorem initAll_first_failure:
  "(outcomes PInit ctx (getAll (registry s)) (world s) = replicate (length (getAll (registry s))) None
      \<longrightarrow> fst (initAll ctx s) = None
        \<and> calls (snd (initAll ctx s))
            = calls s @ map (\<lambda>m. Called (Method PInit (Name m)) None) (getAll (registry s)))
   \<and> (N < length (getAll (registry s))
        \<and> outcomes PInit ctx (take (Suc N) (getAll (registry s))) (world s)
            = replicate N None @ [Some e]
      \<longrightarrow> fst (initAll ctx s)
            = Some (Errorf ''init module %q: %w'' [Name (getAll (registry s) ! N)] e)
        \<and> calls (snd (initAll ctx s))
            = calls s @ map (\<lambda>m. Called (Method PInit (Name m)) None) (take N (getAll (registry s)))
                @ [Called (Method PInit (Name (getAll (registry s) ! N))) (Some e)])"
  using initLoop_ok[of ctx "getAll (registry s)" s] initLoop_fail[of N "getAll (registry s)" ctx s e]
  by (simp add: initAll_def)

text \<open>Three modules of which the second fails to initialise.\<close>

theorem initAll_first_failure_witness:
  "fst (initAll Background (example_system init_fails_second []))
     = Some (Errorf ''init module %q: %w'' [''b''] (UserError ''init b''))
   \<and> calls (snd (initAll Background (example_system init_fails_second [])))
     = [Called (Method PInit ''a'') None, Called (Method PInit ''b'') (Some (UserError ''init b''))]"
proof -
  let ?s = "example_system init_fails_second []"
  have ms: "getAll (registry ?s) = init_fails_second" by (simp add: example_system_def getAll_def)
  have h1: "1 < length (getAll (registry ?s))"
    unfolding ms by (simp add: init_fails_second_def)
  have h2: "outcomes PInit Background (take (Suc 1) (getAll (registry ?s))) (world ?s)
              = replicate 1 None @ [Some (UserError ''init b'')]"
    unfolding ms
    by (simp add: example_system_def init_fails_second_def example_module_def succeed_def fail_with_def)
  have c: "calls ?s = []" by (simp add: example_system_def)
  from initAll_first_failure[of Background ?s 1 "UserError ''init b''"] h1 h2
  have "fst (initAll Background ?s)
          = Some (Errorf ''init module %q: %w'' [Name (getAll (registry ?s) ! 1)] (UserError ''init b''))
      \<and> calls (snd (initAll Background ?s))
          = calls ?s @ map (\<lambda>m. Called (Method PInit (Name m)) None) (take 1 (getAll (registry ?s)))
              @ [Called (Method PInit (Name (getAll (registry ?s) ! 1))) (Some (UserError ''init b''))]"
    by blast
  then show ?thesis unfolding ms c by (simp add: init_fails_second_def example_module_def)
qed

section \<open>Registration\<close>

text \<open>
  Claim C6. For every registry that satisfies its invariant and every module,
  \<^verbatim>\<open>register\<close> fails with the kind \<^verbatim>\<open>ErrRegistrationClosed\<close> when the registry is locked;
  otherwise with \<^verbatim>\<open>ErrModuleNameEmpty\<close> when the name is empty; otherwise with
  \<^verbatim>\<open>ErrModuleAlreadyRegistered\<close> when a module of the snapshot has the name; in these
  three cases the registry is unchanged. Otherwise it succeeds and the new snapshot is
  the old one with the module appended. In every case the invariant is kept, so no name
  occurs twice in the snapshot, and after \<^verbatim>\<open>lock\<close> registration fails as closed.
\<close>

theorem register_outcomes:
  assumes "registry_inv r"
  shows "(locked r \<longrightarrow>
            is_kind (fst (register m r)) ErrRegistrationClosed \<and> snd (register m r) = r)
    \<and> (\<not> locked r \<and> Name m = '''' \<longrightarrow>
            is_kind (fst (register m r)) ErrModuleNameEmpty \<and> snd (register m r) = r)
    \<and> (\<not> locked r \<and> Name m \<noteq> '''' \<and> Name m \<in> set (map Name (getAll r)) \<longrightarrow>
            is_kind (fst (register m r)) ErrModuleAlreadyRegistered \<and> snd (register m r) = r)
    \<and> (\<not> locked r \<and> Name m \<noteq> '''' \<and> Name m \<notin> set (map Name (getAll r)) \<longrightarrow>
            fst (register m r) = None \<and> getAll (snd (register m r)) = getAll r @ [m])
    \<and> registry_inv (snd (register m r))
    \<and> distinct (map Name (getAll (snd (register m r))))
    \<and> is_kind (fst (register m (lock r))) ErrRegistrationClosed"
proof -
  have n: "names r = set (map Name (modules r))" and d: "distinct (map Name (modules r))"
    using assms by (simp_all add: registry_inv_def)
  have 1: "locked r \<longrightarrow>
            is_kind (fst (register m r)) ErrRegistrationClosed \<and> snd (register m r) = r"
    by (simp add: register_def is_kind_def)
  have 2: "\<not> locked r \<and> Name m = '''' \<longrightarrow>
            is_kind (fst (register m r)) ErrModuleNameEmpty \<and> snd (register m r) = r"
    by (simp add: register_def is_kind_def)
  have 3: "\<not> locked r \<and> Name m \<noteq> '''' \<and> Name m \<in> set (map Name (getAll r)) \<longrightarrow>
            is_kind (fst (register m r)) ErrModuleAlreadyRegistered \<and> snd (register m r) = r"
    using n by (simp add: register_def is_kind_def getAll_def)
  have 4: "\<not> locked r \<and> Name m \<noteq> '''' \<and> Name m \<notin> set (map Name (getAll r)) \<longrightarrow>
            fst (register m r) = None \<and> getAll (snd (register m r)) = getAll r @ [m]"
    using n by (simp add: register_def getAll_def)
  have 5: "registry_inv (snd (register m r))"
    using n d by (auto simp: register_def registry_inv_def Let_def)
  have 6: "distinct (map Name (getAll (snd (register m r))))"
    using 5 by (simp add: registry_inv_def getAll_def)
  have 7: "is_kind (fst (register m (lock r))) ErrRegistrationClosed"
    by (simp add: register_def is_kind_def lock_def)
  from 1 2 3 4 5 6 7 show ?thesis by blast
qed

text \<open>Registering a second module named \<open>a\<close> is refused and leaves one \<open>a\<close> in the snapshot.\<close>

theorem register_outcomes_witness:
  "registry_inv (snd (register (example_module ''a'' succeed succeed succeed) newRegistry))
   \<and> is_kind (fst (register (example_module ''a'' succeed succeed (fail_with ''x''))
                  (snd (register (example_module ''a'' succeed succeed succeed) newRegistry))))
        ErrModuleAlreadyRegistered
   \<and> map Name (getAll (snd (register (example_module ''a'' succeed succeed (fail_with ''x''))
                  (snd (register (example_module ''a'' succeed succeed succeed) newRegistry)))))
        = [''a'']"
proof -
  let ?a = "example_module ''a'' succeed succeed succeed"
  let ?a' = "example_module ''a'' succeed succeed (fail_with ''x'')"
  let ?r1 = "snd (register ?a (newRegistry :: nat registry))"
  have i: "registry_inv ?r1"
    using register_outcomes[OF registry_inv_new, of ?a] by blast
  have r1: "getAll ?r1 = [?a]" "\<not> locked ?r1"
    by (simp_all add: register_def newRegistry_def getAll_def example_module_def Let_def)
  have h: "\<not> locked ?r1 \<and> Name ?a' \<noteq> '''' \<and> Name ?a' \<in> set (map Name (getAll ?r1))"
    using r1 by (simp add: example_module_def)
  from register_outcomes[OF i, of ?a'] h
  have "is_kind (fst (register ?a' ?r1)) ErrModuleAlreadyRegistered \<and> snd (register ?a' ?r1) = ?r1"
    by blast
  then show ?thesis using i r1 by (simp add: example_module_def)
qed

section \<open>Metadata accessors\<close>

text \<open>
  Claim C10. For every context that holds no value under the four metadata keys, as
  every context does that \<^verbatim>\<open>enrichContext\<close> never enriched, the accessors return zero
  values: the empty string for name, version and environment, the zero time for the
  start time.
\<close>

theorem accessors_zero_without_metadata:
  assumes "Value ctx contextKeyAppName = None"
    and "Value ctx contextKeyAppVersion = None"
    and "Value ctx contextKeyAppEnvironment = None"
    and "Value ctx contextKeyAppStartTime = None"
  shows "NameFromContext ctx = '''' \<and> VersionFromContext ctx = ''''
    \<and> EnvironmentFromContext ctx = '''' \<and> StartTimeFromContext ctx = 0"
  using assms
  by (simp add: NameFromContext_def VersionFromContext_def EnvironmentFromContext_def
      StartTimeFromContext_def)

text \<open>The background context with a value of another package stored in it.\<close>

theorem accessors_zero_without_metadata_witness:
  "NameFromContext (WithValue Background (ForeignKey ''request-id'') (ForeignVal ''42'')) = ''''
   \<and> VersionFromContext (WithValue Background (ForeignKey ''request-id'') (ForeignVal ''42'')) = ''''
   \<and> EnvironmentFromContext (WithValue Background (ForeignKey ''request-id'') (ForeignVal ''42'')) = ''''
   \<and> StartTimeFromContext (WithValue Background (ForeignKey ''request-id'') (ForeignVal ''42'')) = 0"
proof -
  let ?ctx = "WithValue Background (ForeignKey ''request-id'') (ForeignVal ''42'')"
  have h: "Value ?ctx contextKeyAppName = None" "Value ?ctx contextKeyAppVersion = None"
    "Value ?ctx contextKeyAppEnvironment = None" "Value ?ctx contextKeyAppStartTime = None"
    by (simp_all add: WithValue_def Background_def)
  show ?thesis by (rule accessors_zero_without_metadata[OF h])
qed

section \<open>The run-state flag after an early return\<close>

lemma frame_initAll: "frame s (snd (initAll ctx s))"
  by (simp add: initAll_def frame_initLoop)

lemma frame_startAll: "frame s (snd (startAll ctx s))"
  by (simp add: startAll_def frame_startLoop)

lemma frame_enter:
  "enter ev ctx0 s = (ctx, s1) \<Longrightarrow>
   getAll (registry s1) = getAll (registry s) \<and> hooks s1 = hooks s \<and> isRunning s1 = isRunning s
     \<and> shutdownTimeout s1 = shutdownTimeout s \<and> calls s1 = calls s \<and> world s1 = world s"
  by (auto simp: enter_def Let_def logInfo_def getAll_def lock_def)

text \<open>
  Claim C1, at a failing input. The application has one module, whose \<^verbatim>\<open>Init\<close> fails.
  \<^verbatim>\<open>Run\<close> returns the wrapped failure and leaves the run-state flag set, so the next
  \<^verbatim>\<open>Run\<close> on the same application fails with \<^verbatim>\<open>ErrApplicationAlreadyRunning\<close>.
\<close>

theorem Run_init_failure_leaves_flag_set:
  "returned (Run example_env Background (example_system init_fails []))
     = Some (Some (Errorf ''init module %q: %w'' [''bad''] (UserError ''init failed'')))
   \<and> isRunning (state_of (Run example_env Background (example_system init_fails [])))
   \<and> returned (Run example_env Background
        (state_of (Run example_env Background (example_system init_fails []))))
     = Some (Some ErrApplicationAlreadyRunning)"
proof -
  let ?s0 = "example_system init_fails []"
  obtain ctx s1 where en: "enter example_env Background (?s0\<lparr>isRunning := True\<rparr>) = (ctx, s1)"
    by (cases "enter example_env Background (?s0\<lparr>isRunning := True\<rparr>)")
  have s1: "getAll (registry s1) = init_fails" "isRunning s1"
    using frame_enter[OF en] by (simp_all add: example_system_def getAll_def)
  obtain r s2 where ia: "initAll ctx s1 = (r, s2)" by (cases "initAll ctx s1")
  have r: "r = Some (Errorf ''init module %q: %w'' [''bad''] (UserError ''init failed''))"
    using ia s1(1)
    by (simp add: initAll_def init_fails_def example_module_def fail_with_def invoke_def Let_def)
  have f: "isRunning s2" using frame_initAll[of s1 ctx] ia s1(2) by (simp add: frame_def)
  have run: "Run example_env Background ?s0 = Returned r s2"
    using en ia r by (simp add: Run_def example_system_def)
  show ?thesis using run r f by (simp add: Run_def)
qed

lemma frame_runHooksAll:
  "frame s (snd (runHooksBeforeStart ctx s))" "frame s (snd (runHooksAfterStart ctx s))"
  "frame s (snd (runHooksBeforeStop ctx s))" "frame s (snd (runHooksAfterStop ctx s))"
  by (simp_all add: runHooksBeforeStart_def runHooksAfterStart_def runHooksBeforeStop_def
      runHooksAfterStop_def frame_runHooks)

lemma startAll_success: "startAll ctx s = ((st, None), s') \<Longrightarrow> st = Some (getAll (registry s))"
  using startLoop_success[of ctx "getAll (registry s)" "[]" s st] by (simp add: startAll_def)

lemma startup_frame:
  assumes "enter ev ctx0 (s0\<lparr>isRunning := True\<rparr>) = (ctx, s1)"
    and "initAll ctx s1 = (r2, s2)"
    and "runHooksBeforeStart ctx s2 = (r3, s3)"
    and "startAll ctx (logInfo ''starting modules'' [] s3) = (r4, s4)"
    and "runHooksAfterStart ctx s4 = (r5, s5)"
  shows "getAll (registry s3) = getAll (registry s0)" "getAll (registry s5) = getAll (registry s0)"
    "hooks s5 = hooks s0" "shutdownTimeout s5 = shutdownTimeout s0"
proof -
  have 1: "getAll (registry s1) = getAll (registry s0)" "hooks s1 = hooks s0"
    "shutdownTimeout s1 = shutdownTimeout s0"
    using frame_enter[OF assms(1)] by simp_all
  have 2: "frame s1 s2" using frame_initAll[of s1 ctx] assms(2) by simp
  have 3: "frame s2 s3" using frame_runHooksAll(1)[of s2 ctx] assms(3) by simp
  have 4: "frame s3 s4"
    using frame_startAll[of "logInfo ''starting modules'' [] s3" ctx] assms(4)
    by (simp add: frame_def)
  have 5: "frame s4 s5" using frame_runHooksAll(2)[of s4 ctx] assms(5) by simp
  show "getAll (registry s3) = getAll (registry s0)" using 1 2 3 by (simp add: frame_def)
  show "getAll (registry s5) = getAll (registry s0)" using 1 2 3 4 5 by (simp add: frame_def)
  show "hooks s5 = hooks s0" using 1 2 3 4 5 by (simp add: frame_def)
  show "shutdownTimeout s5 = shutdownTimeout s0" using 1 2 3 4 5 by (simp add: frame_def)
qed

section \<open>A failing AfterStart hook\<close>

text \<open>The definitions that evaluate a run on a concrete system.\<close>

lemmas eval_defs =
  example_system_def example_env_def example_module_def succeed_def fail_with_def
  enter_def enrichContext_def WithValue_def WithCancel_def WithTimeout_def Background_def lock_def getAll_def
  initAll_def startAll_def shutdownModules_def shutdownAll_def invoke_def invokeHook_def
  logInfo_def logError_def runHooksBeforeStart_def runHooksAfterStart_def
  runHooksBeforeStop_def runHooksAfterStop_def errors_Join_def Let_def

text \<open>
  Claim C8. Let a run pass its opening, let \<^verbatim>\<open>initAll\<close>, the BeforeStart hooks and
  \<^verbatim>\<open>startAll\<close> succeed, and let the AfterStart hooks return the error \<open>e\<close>. Then the
  started list is the whole registry snapshot, and \<^verbatim>\<open>Run\<close> returns, after logging the
  failure, what \<^verbatim>\<open>shutdownModules\<close> on that list gives: the calls it adds are \<^verbatim>\<open>Stop\<close> on
  every started module in reverse order, and the error returned is the join of the
  wrapped hook error with the rollback's stop error.
\<close>

theorem Run_afterStart_hook_failure:
  assumes "\<not> isRunning s0"
    and "enter ev ctx0 (s0\<lparr>isRunning := True\<rparr>) = (ctx, s1)"
    and "initAll ctx s1 = (None, s2)"
    and "runHooksBeforeStart ctx s2 = (None, s3)"
    and "startAll ctx (logInfo ''starting modules'' [] s3) = ((started, None), s4)"
    and "runHooksAfterStart ctx s4 = (Some e, s5)"
    and "s6 = logError ''after start hook failed, shutting down'' [S ''error'', E (Some e)] s5"
  shows "started = Some (getAll (registry s0))
    \<and> Run ev ctx0 s0 =
        Returned
          (errors_Join [Some (Errorf ''after start hook: %w'' [] e),
                        fst (shutdownModules Background (getAll (registry s0)) s6)])
          (snd (shutdownModules Background (getAll (registry s0)) s6))
    \<and> map call_target (new_calls s5 (state_of (Run ev ctx0 s0)))
        = map (\<lambda>m. Method PStop (Name m)) (rev (getAll (registry s0)))
    \<and> fst (shutdownModules Background (getAll (registry s0)) s6)
        = errors_Join (map stop_failure (new_calls s5 (state_of (Run ev ctx0 s0))))"
proof -
  let ?ms = "getAll (registry s0)"
  have reg3: "getAll (registry (logInfo ''starting modules'' [] s3)) = ?ms"
    using startup_frame(1)[OF assms(2-6)] by simp
  have st: "started = Some ?ms"
    using startAll_success[OF assms(5)] reg3 by simp
  obtain shutdownErr s7 where sm: "shutdownModules Background ?ms s6 = (shutdownErr, s7)"
    by (cases "shutdownModules Background ?ms s6")
  have run: "Run ev ctx0 s0 =
      Returned (errors_Join [Some (Errorf ''after start hook: %w'' [] e), shutdownErr]) s7"
    using assms st sm by (simp add: Run_def)
  obtain evs where
    e: "calls s7 = calls s6 @ evs"
       "map call_target evs = map (\<lambda>m. Method PStop (Name m)) (rev ?ms)"
       "shutdownErr = errors_Join (map stop_failure evs)"
    using shutdownModules_calls[of Background ?ms s6] sm by auto
  have n: "new_calls s5 s7 = evs" using e(1) assms(7) by (simp add: new_calls_def)
  show ?thesis using st run sm e n by simp
qed

text \<open>One module, whose \<^verbatim>\<open>Stop\<close> fails, and a hook whose AfterStart callback fails.\<close>

theorem Run_afterStart_hook_failure_witness:
  "returned (Run example_env Background (example_system one_module afterStart_fails))
     = Some (Some (Joined
         [Errorf ''after start hook: %w'' [] (UserError ''not ready''),
          Joined [Errorf ''stop module %q: %w'' [''a''] (UserError ''stop a'')]]))
   \<and> map call_target (calls (state_of (Run example_env Background
         (example_system one_module afterStart_fails))))
     = [Method PInit ''a'', Method PStart ''a'', Callback HAfterStart, Method PStop ''a'']"
proof -
  let ?s0 = "example_system one_module afterStart_fails"
  let ?e = "enter example_env Background (?s0\<lparr>isRunning := True\<rparr>)"
  let ?ctx = "fst ?e" and ?s1 = "snd ?e"
  let ?s2 = "snd (initAll ?ctx ?s1)"
  let ?s3 = "snd (runHooksBeforeStart ?ctx ?s2)"
  let ?s4 = "snd (startAll ?ctx (logInfo ''starting modules'' [] ?s3))"
  let ?s5 = "snd (runHooksAfterStart ?ctx ?s4)"
  let ?s6 = "logError ''after start hook failed, shutting down''
               [S ''error'', E (Some (UserError ''not ready''))] ?s5"
  have h1: "\<not> isRunning ?s0" by (simp add: example_system_def)
  have h2: "?e = (?ctx, ?s1)" by simp
  have h3: "initAll ?ctx ?s1 = (None, ?s2)"
    by (simp add: prod_eq_iff eval_defs one_module_def afterStart_fails_def)
  have h4: "runHooksBeforeStart ?ctx ?s2 = (None, ?s3)"
    by (simp add: prod_eq_iff eval_defs one_module_def afterStart_fails_def)
  have h5: "startAll ?ctx (logInfo ''starting modules'' [] ?s3) = ((Some one_module, None), ?s4)"
    by (simp add: prod_eq_iff eval_defs one_module_def afterStart_fails_def)
  have h6: "runHooksAfterStart ?ctx ?s4 = (Some (UserError ''not ready''), ?s5)"
    by (simp add: prod_eq_iff eval_defs one_module_def afterStart_fails_def)
  note th = Run_afterStart_hook_failure[OF h1 h2 h3 h4 h5 h6 refl]
  have ms: "getAll (registry ?s0) = one_module" by (simp add: example_system_def getAll_def)
  have c5: "calls ?s5 = [Called (Method PInit ''a'') None, Called (Method PStart ''a'') None,
      Called (Callback HAfterStart) (Some (UserError ''not ready''))]"
    by (simp add: eval_defs one_module_def afterStart_fails_def)
  have sm: "fst (shutdownModules Background one_module ?s6)
      = Some (Joined [Errorf ''stop module %q: %w'' [''a''] (UserError ''stop a'')])"
    by (simp add: eval_defs one_module_def afterStart_fails_def)
  have cs: "calls (snd (shutdownModules Background one_module ?s6))
      = calls ?s5 @ [Called (Method PStop ''a'') (Some (UserError ''stop a''))]"
    by (simp add: eval_defs one_module_def afterStart_fails_def)
  from th have run: "Run example_env Background ?s0 =
        Returned
          (errors_Join [Some (Errorf ''after start hook: %w'' [] (UserError ''not ready'')),
                        fst (shutdownModules Background one_module ?s6)])
          (snd (shutdownModules Background one_module ?s6))"
    unfolding ms by blast
  show ?thesis unfolding run using sm cs c5 by (simp add: errors_Join_def)
qed

section \<open>No background modules\<close>

lemma no_background_modules:
  "list_all (\<lambda>m. Err m = None) ms \<Longrightarrow> List.map_filter asBackgroundModule ms = []"
  by (induction ms) (simp_all add: asBackgroundModule_def)

text \<open>
  Claim C9. When no registered module has the background-error capability,
  \<^verbatim>\<open>collectBackgroundErrors\<close> returns the nil channel. If moreover the start-up of the run
  succeeds (the opening, \<^verbatim>\<open>initAll\<close>, the BeforeStart hooks, \<^verbatim>\<open>startAll\<close>, the AfterStart
  hooks) and the run context is never cancelled, \<^verbatim>\<open>Run\<close> does not return: it blocks on
  its \<^verbatim>\<open>select\<close>, with no call of \<^verbatim>\<open>Stop\<close> and no hook of the shutdown made.
\<close>

theorem Run_blocks_without_background_modules:
  assumes "\<not> isRunning s0"
    and "list_all (\<lambda>m. Err m = None) (getAll (registry s0))"
    and "enter ev ctx0 (s0\<lparr>isRunning := True\<rparr>) = (ctx, s1)"
    and "initAll ctx s1 = (None, s2)"
    and "runHooksBeforeStart ctx s2 = (None, s3)"
    and "startAll ctx (logInfo ''starting modules'' [] s3) = ((started, None), s4)"
    and "runHooksAfterStart ctx s4 = (None, s5)"
    and "cancelled ev = NotCancelled"
  shows "collectBackgroundErrors s5 = None
    \<and> select_run ev (collectBackgroundErrors s5) = SelectBlocks
    \<and> Run ev ctx0 s0 = Blocked (logInfo ''application started'' [] s5)
    \<and> calls (state_of (Run ev ctx0 s0)) = calls s5"
proof -
  have reg: "getAll (registry s5) = getAll (registry s0)"
    using startup_frame(2)[OF assms(3-7)] .
  have "List.map_filter asBackgroundModule (getAll (registry s5)) = []"
    using assms(2) unfolding reg by (rule no_background_modules)
  then have c: "collectBackgroundErrors s5 = None"
    by (simp add: collectBackgroundErrors_def Let_def)
  have sel: "select_run ev (collectBackgroundErrors s5) = SelectBlocks"
    using c assms(8) by (simp add: select_run_def)
  have aw: "await ev s5 = Blocked (logInfo ''application started'' [] s5)"
    using sel assms(8) by (simp add: await_def Let_def)
  have run: "Run ev ctx0 s0 = Blocked (logInfo ''application started'' [] s5)"
    using assms aw by (simp add: Run_def)
  show ?thesis using c sel run by simp
qed

text \<open>One module without the background capability, no hooks, a context never cancelled.\<close>

theorem Run_blocks_without_background_modules_witness:
  "returned (Run example_env Background (example_system one_module [])) = None
   \<and> collectBackgroundErrors (example_system one_module []) = None
   \<and> calls (state_of (Run example_env Background (example_system one_module [])))
     = [Called (Method PInit ''a'') None, Called (Method PStart ''a'') None]"
proof -
  let ?s0 = "example_system one_module []"
  let ?e = "enter example_env Background (?s0\<lparr>isRunning := True\<rparr>)"
  let ?ctx = "fst ?e" and ?s1 = "snd ?e"
  let ?s2 = "snd (initAll ?ctx ?s1)"
  let ?s3 = "snd (runHooksBeforeStart ?ctx ?s2)"
  let ?s4 = "snd (startAll ?ctx (logInfo ''starting modules'' [] ?s3))"
  let ?s5 = "snd (runHooksAfterStart ?ctx ?s4)"
  have h1: "\<not> isRunning ?s0" by (simp add: example_system_def)
  have h0: "list_all (\<lambda>m. Err m = None) (getAll (registry ?s0))"
    by (simp add: example_system_def getAll_def one_module_def example_module_def)
  have h2: "?e = (?ctx, ?s1)" by simp
  have h3: "initAll ?ctx ?s1 = (None, ?s2)"
    by (simp add: prod_eq_iff eval_defs one_module_def)
  have h4: "runHooksBeforeStart ?ctx ?s2 = (None, ?s3)"
    by (simp add: prod_eq_iff eval_defs one_module_def)
  have h5: "startAll ?ctx (logInfo ''starting modules'' [] ?s3) = ((Some one_module, None), ?s4)"
    by (simp add: prod_eq_iff eval_defs one_module_def)
  have h6: "runHooksAfterStart ?ctx ?s4 = (None, ?s5)"
    by (simp add: prod_eq_iff eval_defs one_module_def)
  have h7: "cancelled example_env = NotCancelled" by (simp add: example_env_def)
  note th = Run_blocks_without_background_modules[OF h1 h0 h2 h3 h4 h5 h6 h7]
  have c5: "calls ?s5 = [Called (Method PInit ''a'') None, Called (Method PStart ''a'') None]"
    by (simp add: eval_defs one_module_def)
  have cb: "collectBackgroundErrors ?s0 = None"
    by (simp add: collectBackgroundErrors_def asBackgroundModule_def example_system_def getAll_def one_module_def
        example_module_def)
  from th have run: "Run example_env Background ?s0 = Blocked (logInfo ''application started'' [] ?s5)"
    and cs: "calls (state_of (Run example_env Background ?s0)) = calls ?s5"
    by blast+
  show ?thesis using run cs c5 cb by simp
qed

section \<open>Background modules that exit cleanly\<close>

text \<open>
  Claim C3, at a failing input. The application has one background module, which closes
  its error channel without sending, and the run context is never cancelled. The reader
  finishes without forwarding, so the fan-in channel is closed and empty. The \<^verbatim>\<open>select\<close>
  of \<^verbatim>\<open>Run\<close> receives nil from it, logs a background module failure with a nil error and
  goes on to \<^verbatim>\<open>shutdown\<close>: \<^verbatim>\<open>Stop\<close> is called on the module and \<^verbatim>\<open>Run\<close> returns nil.
\<close>

theorem Run_clean_background_exit_shuts_down:
  "collectBackgroundErrors (example_system clean_background [])
     = Some \<lparr>buffer = [], closed = True\<rparr>
   \<and> returned (Run example_env Background (example_system clean_background [])) = Some None
   \<and> calls (state_of (Run example_env Background (example_system clean_background [])))
     = [Called (Method PInit ''bg'') None, Called (Method PStart ''bg'') None,
        Called (Method PStop ''bg'') None]
   \<and> logged (state_of (Run example_env Background (example_system clean_background [])))
     = [Info ''initializing modules'' [],
        Info ''initializing module'' [S ''module'', S ''bg''],
        Info ''starting modules'' [],
        Info ''starting module'' [S ''module'', S ''bg''],
        Info ''application started'' [],
        Error ''background module failed'' [S ''error'', E None],
        Info ''stopping module'' [S ''module'', S ''bg''],
        Info ''shutdown completed successfully'' []]"
  by (simp add: Run_def await_def select_run_def shutdown_def stopRace_def
      collectBackgroundErrors_def asBackgroundModule_def clean_background_def eval_defs)

section \<open>Where an error of the timeout kind can come from\<close>

text \<open>
  \<^verbatim>\<open>errors.Join\<close> and the wrapping of \<^verbatim>\<open>fmt.Errorf\<close> never make the timeout sentinel, and
  they contain it only when an operand does. So an error of that kind returned by the
  runner or by a hook loop comes from a recorded call.
\<close>

lemma set_map_filter_id: "set (List.map_filter (\<lambda>e. e) xs) = {e. Some e \<in> set xs}"
  by (induction xs) (auto split: option.splits)

lemma errors_Join_cases:
  "errors_Join xs = None \<or> errors_Join xs = Some (Joined (List.map_filter (\<lambda>e. e) xs))"
  by (simp add: errors_Join_def split: list.splits)

lemma errors_Join_not_sentinel: "errors_Join xs \<noteq> Some ErrGracefulShutdownTimedOut"
  using errors_Join_cases[of xs] by auto

lemma is_kind_Join:
  "is_kind (errors_Join xs) ErrGracefulShutdownTimedOut
     = (\<exists>x \<in> set xs. is_kind x ErrGracefulShutdownTimedOut)"
proof (cases "List.map_filter (\<lambda>e. e) xs")
  case Nil
  then have "{e. Some e \<in> set xs} = {}" using set_map_filter_id[of xs] by simp
  then have "\<forall>x \<in> set xs. x = None" by (metis (mono_tags, lifting) empty_iff mem_Collect_eq option.exhaust)
  then show ?thesis using Nil by (auto simp: errors_Join_def is_kind_def)
next
  case (Cons e es)
  have "set (e # es) = {e. Some e \<in> set xs}" using set_map_filter_id[of xs] Cons by simp
  then show ?thesis using Cons
    by (auto simp: errors_Join_def is_kind_def split: option.splits)
qed

lemma is_kind_stop_failure:
  "is_kind (stop_failure c) ErrGracefulShutdownTimedOut
     \<Longrightarrow> is_kind (call_result c) ErrGracefulShutdownTimedOut"
  by (cases c rule: stop_failure.cases) (simp_all add: is_kind_def)

lemma shutdownModules_blame:
  assumes "is_kind (fst (shutdownModules ctx ms s)) ErrGracefulShutdownTimedOut"
  shows "\<exists>c \<in> set (new_calls s (snd (shutdownModules ctx ms s))).
           is_kind (call_result c) ErrGracefulShutdownTimedOut"
proof -
  obtain evs where
    e: "calls (snd (shutdownModules ctx ms s)) = calls s @ evs"
       "fst (shutdownModules ctx ms s) = errors_Join (map stop_failure evs)"
    using shutdownModules_calls[of ctx ms s] by blast
  have n: "new_calls s (snd (shutdownModules ctx ms s)) = evs"
    using e(1) by (rule new_calls_append)
  from assms e(2) obtain c where "c \<in> set evs" "is_kind (stop_failure c) ErrGracefulShutdownTimedOut"
    by (auto simp: is_kind_Join)
  then show ?thesis unfolding n using is_kind_stop_failure by blast
qed

lemma runHooks_calls:
  "\<exists>evs. calls (snd (runHooks p ctx hs s)) = calls s @ evs
     \<and> (\<forall>e. fst (runHooks p ctx hs s) = Some e \<longrightarrow> Called (Callback p) (Some e) \<in> set evs)"
proof (induction hs arbitrary: s)
  case Nil
  then show ?case by simp
next
  case (Cons h hs)
  show ?case
  proof (cases "callback p h")
    case None
    then show ?thesis using Cons.IH[of s] by simp
  next
    case (Some f)
    obtain r s1 where inv: "invokeHook p f ctx s = (r, s1)" by (cases "invokeHook p f ctx s")
    have c1: "calls s1 = calls s @ [Called (Callback p) r]"
      using invokeHook_simps(1,3)[of p f ctx s] inv by simp
    show ?thesis
    proof (cases r)
      case None
      from Cons.IH[of s1] obtain evs where
        e: "calls (snd (runHooks p ctx hs s1)) = calls s1 @ evs"
           "\<forall>e. fst (runHooks p ctx hs s1) = Some e \<longrightarrow> Called (Callback p) (Some e) \<in> set evs"
        by blast
      show ?thesis
        apply (rule exI[of _ "Called (Callback p) None # evs"])
        using e c1 None inv Some by simp
    next
      case (Some e0)
      show ?thesis
        apply (rule exI[of _ "[Called (Callback p) (Some e0)]"])
        using c1 Some inv \<open>callback p h = Some f\<close> by simp
    qed
  qed
qed

lemma stopRace_calls:
  "\<exists>evs. calls (snd (stopRace ev s)) = calls s @ evs
     \<and> ((shutdownTimeout s \<le> 0 \<or> timer_race ev = None)
          \<and> is_kind (fst (stopRace ev s)) ErrGracefulShutdownTimedOut
        \<longrightarrow> (\<exists>c \<in> set evs. is_kind (call_result c) ErrGracefulShutdownTimedOut))"
proof -
  have a: "\<exists>evs. calls (snd (shutdownModules ctx ms s)) = calls s @ evs
     \<and> (is_kind (fst (shutdownModules ctx ms s)) ErrGracefulShutdownTimedOut
        \<longrightarrow> (\<exists>c \<in> set evs. is_kind (call_result c) ErrGracefulShutdownTimedOut))" for ctx ms
  proof -
    obtain evs where e: "calls (snd (shutdownModules ctx ms s)) = calls s @ evs"
      using shutdownModules_calls[of ctx ms s] by blast
    show ?thesis
      apply (rule exI[of _ evs])
      using e shutdownModules_blame[of ctx ms s] new_calls_append[OF e] by simp
  qed
  show ?thesis
  proof (cases "0 < shutdownTimeout s")
    case False
    then show ?thesis using a[of Background "getAll (registry s)"]
      by (simp add: stopRace_def shutdownAll_def)
  next
    case True
    show ?thesis
    proof (cases "timer_race ev")
      case None
      then show ?thesis
        using True a[of "WithTimeout Background (shutdownTimeout s)" "getAll (registry s)"]
        by (simp add: stopRace_def shutdownAll_def Let_def)
    next
      case (Some k)
      obtain evs where "calls (snd (shutdownModules (WithTimeout Background (shutdownTimeout s))
          (drop (length (getAll (registry s)) - k) (getAll (registry s))) s)) = calls s @ evs"
        using a by blast
      then show ?thesis using True Some by (simp add: stopRace_def Let_def)
    qed
  qed
qed

lemma frame_stopRace: "frame s (snd (stopRace ev s))"
  using frame_shutdownModules[of s]
  by (simp add: stopRace_def shutdownAll_def Let_def split: option.splits)

lemma shutdownModules_not_sentinel:
  "fst (shutdownModules ctx ms s) \<noteq> Some ErrGracefulShutdownTimedOut"
  by (simp add: shutdownModules_def errors_Join_not_sentinel split: prod.splits)

lemma stopRace_sentinel:
  "0 < shutdownTimeout s \<Longrightarrow>
   (fst (stopRace ev s) = Some ErrGracefulShutdownTimedOut) = (timer_race ev \<noteq> None)"
proof (cases "timer_race ev")
  case None
  assume "0 < shutdownTimeout s"
  then show ?thesis
    using None shutdownModules_not_sentinel
    by (simp add: stopRace_def shutdownAll_def Let_def)
next
  case (Some k)
  assume "0 < shutdownTimeout s"
  then show ?thesis using Some by (simp add: stopRace_def Let_def)
qed

lemma stopRace_synchronous:
  "shutdownTimeout s = 0 \<Longrightarrow> stopRace ev s = shutdownAll Background s"
  by (simp add: stopRace_def)

text \<open>The steps of \<^verbatim>\<open>shutdown\<close>, named.\<close>

lemma shutdown_steps:
  assumes "runHooksBeforeStop Background s = (beforeErr, s1)"
    and "s2 = (case beforeErr of
                  Some e \<Rightarrow> logError ''before stop hook failed'' [S ''error'', E (Some e)] s1
                | None \<Rightarrow> s1)"
    and "stopRace ev s2 = (shutdownErr, s3)"
    and "s4 = (case shutdownErr of
                  Some e \<Rightarrow> logError ''shutdown completed with errors'' [S ''error'', E (Some e)] s3
                | None \<Rightarrow> logInfo ''shutdown completed successfully'' [] s3)"
    and "runHooksAfterStop Background s4 = (afterErr, s5)"
  shows "shutdown ev s =
           ((case afterErr of
               Some e \<Rightarrow> errors_Join [shutdownErr, Some (Errorf ''after stop hook: %w'' [] e)]
             | None \<Rightarrow> shutdownErr),
            (case afterErr of
               Some e \<Rightarrow> logError ''after stop hook failed'' [S ''error'', E (Some e)] s5
             | None \<Rightarrow> s5)\<lparr>meta_stopTime := now_stop ev, isRunning := False\<rparr>)"
  using assms by (simp add: shutdown_def Let_def split: option.splits)

lemma shutdown_resets_flag: "isRunning (snd (shutdown ev s)) = False"
  by (simp add: shutdown_def Let_def split: option.splits prod.splits)

lemma shutdown_race_facts:
  "(0 < shutdownTimeout s \<longrightarrow>
      ((fst (stopRace ev s) = Some ErrGracefulShutdownTimedOut) = (timer_race ev \<noteq> None))
      \<and> (timer_race ev \<noteq> None \<longrightarrow> is_kind (fst (shutdown ev s)) ErrGracefulShutdownTimedOut))
   \<and> (shutdownTimeout s = 0 \<longrightarrow>
        stopRace ev s = shutdownAll Background s
      \<and> shutdown (ev\<lparr>timer_race := t\<rparr>) s = shutdown ev s
      \<and> fst (shutdown ev s) \<noteq> Some ErrGracefulShutdownTimedOut)
   \<and> ((shutdownTimeout s = 0 \<or> timer_race ev = None)
        \<and> is_kind (fst (shutdown ev s)) ErrGracefulShutdownTimedOut \<longrightarrow>
          (\<exists>c \<in> set (new_calls s (snd (shutdown ev s))).
             is_kind (call_result c) ErrGracefulShutdownTimedOut))"
proof -
  let ?T = ErrGracefulShutdownTimedOut
  obtain beforeErr s1 where b: "runHooksBeforeStop Background s = (beforeErr, s1)"
    by (cases "runHooksBeforeStop Background s")
  define s2 where "s2 = (case beforeErr of
                  Some e \<Rightarrow> logError ''before stop hook failed'' [S ''error'', E (Some e)] s1
                | None \<Rightarrow> s1)"
  obtain shutdownErr s3 where r: "stopRace ev s2 = (shutdownErr, s3)"
    by (cases "stopRace ev s2")
  define s4 where "s4 = (case shutdownErr of
                  Some e \<Rightarrow> logError ''shutdown completed with errors'' [S ''error'', E (Some e)] s3
                | None \<Rightarrow> logInfo ''shutdown completed successfully'' [] s3)"
  obtain afterErr s5 where a: "runHooksAfterStop Background s4 = (afterErr, s5)"
    by (cases "runHooksAfterStop Background s4")
  note st = shutdown_steps[OF b s2_def r s4_def a]
  have res: "fst (shutdown ev s) =
           (case afterErr of
              Some e \<Rightarrow> errors_Join [shutdownErr, Some (Errorf ''after stop hook: %w'' [] e)]
            | None \<Rightarrow> shutdownErr)"
    by (simp add: st)
  have cs: "calls (snd (shutdown ev s)) = calls s5"
    by (simp add: st split: option.splits)
  have f1: "frame s s1" using frame_runHooksAll(3)[of s Background] b by simp
  have t2: "shutdownTimeout s2 = shutdownTimeout s"
    using f1 by (simp add: s2_def frame_def split: option.splits)
  \<comment> \<open>the calls recorded by each step\<close>
  obtain e1 where e1: "calls s1 = calls s @ e1"
    using runHooks_calls[of HBeforeStop Background "hooks s" s] b
    by (auto simp: runHooksBeforeStop_def)
  have c2: "calls s2 = calls s1" by (simp add: s2_def split: option.splits)
  from stopRace_calls[of ev s2] obtain e2 where
    e2': "calls (snd (stopRace ev s2)) = calls s2 @ e2
      \<and> ((shutdownTimeout s2 \<le> 0 \<or> timer_race ev = None)
            \<and> is_kind (fst (stopRace ev s2)) ?T
          \<longrightarrow> (\<exists>c \<in> set e2. is_kind (call_result c) ?T))"
    by (elim exE) (rule that)
  have e2: "calls s3 = calls s2 @ e2"
    and blame2: "(shutdownTimeout s2 \<le> 0 \<or> timer_race ev = None) \<and> is_kind shutdownErr ?T
        \<longrightarrow> (\<exists>c \<in> set e2. is_kind (call_result c) ?T)"
    using e2' r by simp_all
  have c4: "calls s4 = calls s3" by (simp add: s4_def split: option.splits)
  from runHooks_calls[of HAfterStop Background "hooks s4" s4] obtain e3 where
    e3': "calls (snd (runHooks HAfterStop Background (hooks s4) s4)) = calls s4 @ e3
      \<and> (\<forall>e. fst (runHooks HAfterStop Background (hooks s4) s4) = Some e
            \<longrightarrow> Called (Callback HAfterStop) (Some e) \<in> set e3)"
    by (elim exE) (rule that)
  have e3: "calls s5 = calls s4 @ e3"
    and blame3: "\<forall>e. afterErr = Some e \<longrightarrow> Called (Callback HAfterStop) (Some e) \<in> set e3"
    using e3' a by (simp_all add: runHooksAfterStop_def)
  have new: "new_calls s (snd (shutdown ev s)) = e1 @ e2 @ e3"
    using cs e1 c2 e2 c4 e3 by (simp add: new_calls_def)
  \<comment> \<open>a timeout above 0\<close>
  have p1: "0 < shutdownTimeout s \<longrightarrow>
      ((fst (stopRace ev s) = Some ?T) = (timer_race ev \<noteq> None))"
    using stopRace_sentinel[of s ev] by simp
  have p2: "0 < shutdownTimeout s \<and> timer_race ev \<noteq> None \<longrightarrow> is_kind (fst (shutdown ev s)) ?T"
  proof
    assume h: "0 < shutdownTimeout s \<and> timer_race ev \<noteq> None"
    then have "fst (stopRace ev s2) = Some ?T" using stopRace_sentinel[of s2 ev] t2 by simp
    then have "shutdownErr = Some ?T" using r by simp
    then show "is_kind (fst (shutdown ev s)) ?T"
      unfolding res by (cases afterErr) (simp_all add: is_kind_Join, simp_all add: is_kind_def)
  qed
  \<comment> \<open>a timeout of 0\<close>
  have p3: "shutdownTimeout s = 0 \<longrightarrow> stopRace ev s = shutdownAll Background s"
    by (simp add: stopRace_synchronous)
  have p4: "shutdownTimeout s = 0 \<longrightarrow> shutdown (ev\<lparr>timer_race := t\<rparr>) s = shutdown ev s"
  proof
    assume "shutdownTimeout s = 0"
    then have "stopRace (ev\<lparr>timer_race := t\<rparr>) s2 = (shutdownErr, s3)"
      using r t2 by (simp add: stopRace_def)
    from shutdown_steps[OF b s2_def this s4_def a] st
    show "shutdown (ev\<lparr>timer_race := t\<rparr>) s = shutdown ev s" by simp
  qed
  have p5: "shutdownTimeout s = 0 \<longrightarrow> fst (shutdown ev s) \<noteq> Some ?T"
  proof
    assume "shutdownTimeout s = 0"
    then have "shutdownErr = fst (shutdownModules Background (getAll (registry s2)) s2)"
      using r t2 by (simp add: stopRace_def shutdownAll_def)
    then have "shutdownErr \<noteq> Some ?T" using shutdownModules_not_sentinel by metis
    then show "fst (shutdown ev s) \<noteq> Some ?T"
      unfolding res using errors_Join_not_sentinel by (cases afterErr) simp_all
  qed
  \<comment> \<open>whenever the timer does not win\<close>
  have p6: "(shutdownTimeout s = 0 \<or> timer_race ev = None) \<and> is_kind (fst (shutdown ev s)) ?T \<longrightarrow>
          (\<exists>c \<in> set (new_calls s (snd (shutdown ev s))). is_kind (call_result c) ?T)"
  proof
    assume h: "(shutdownTimeout s = 0 \<or> timer_race ev = None) \<and> is_kind (fst (shutdown ev s)) ?T"
    then have k: "is_kind shutdownErr ?T \<or> (\<exists>e. afterErr = Some e \<and> errors_Is e ?T)"
      unfolding res by (cases afterErr) (auto simp: is_kind_Join, auto simp: is_kind_def)
    show "\<exists>c \<in> set (new_calls s (snd (shutdown ev s))). is_kind (call_result c) ?T"
    proof (cases "is_kind shutdownErr ?T")
      case True
      then obtain c where "c \<in> set e2" "is_kind (call_result c) ?T"
        using blame2 h t2 by auto
      then show ?thesis unfolding new by auto
    next
      case False
      then obtain e where e: "afterErr = Some e" "errors_Is e ?T" using k by blast
      then have "Called (Callback HAfterStop) (Some e) \<in> set e3" using blame3 by simp
      moreover have "is_kind (call_result (Called (Callback HAfterStop) (Some e))) ?T"
        using e(2) by (simp add: is_kind_def)
      ultimately show ?thesis unfolding new by (metis Un_iff set_append)
    qed
  qed
  from p1 p2 p3 p4 p5 p6 show ?thesis by blast
qed

lemma initLoop_blame:
  "\<exists>evs. calls (snd (initLoop ctx ms s)) = calls s @ evs
     \<and> fst (initLoop ctx ms s) \<noteq> Some ErrGracefulShutdownTimedOut
     \<and> (is_kind (fst (initLoop ctx ms s)) ErrGracefulShutdownTimedOut
          \<longrightarrow> (\<exists>c \<in> set evs. is_kind (call_result c) ErrGracefulShutdownTimedOut))"
proof (induction ms arbitrary: s)
  case Nil
  then show ?case by (simp add: is_kind_def)
next
  case (Cons m ms)
  let ?s1 = "logInfo ''initializing module'' [S ''module'', S (Name m)] s"
  obtain r s2 where inv: "invoke PInit m ctx ?s1 = (r, s2)" by (cases "invoke PInit m ctx ?s1")
  have c2: "calls s2 = calls s @ [Called (Method PInit (Name m)) r]"
    using invoke_simps(1,3)[of PInit m ctx ?s1] inv by simp
  show ?case
  proof (cases r)
    case None
    from Cons.IH[of s2] obtain evs where
      e: "calls (snd (initLoop ctx ms s2)) = calls s2 @ evs
        \<and> fst (initLoop ctx ms s2) \<noteq> Some ErrGracefulShutdownTimedOut
        \<and> (is_kind (fst (initLoop ctx ms s2)) ErrGracefulShutdownTimedOut
          \<longrightarrow> (\<exists>c \<in> set evs. is_kind (call_result c) ErrGracefulShutdownTimedOut))"
      by (elim exE) (rule that)
    show ?thesis
      apply (rule exI[of _ "Called (Method PInit (Name m)) None # evs"])
      using e c2 None inv by (simp add: Let_def)
  next
    case (Some e0)
    show ?thesis
      apply (rule exI[of _ "[Called (Method PInit (Name m)) (Some e0)]"])
      using c2 Some inv by (simp add: Let_def is_kind_def)
  qed
qed

lemma startLoop_blame:
  "\<exists>evs. calls (snd (startLoop ctx ms started s)) = calls s @ evs
     \<and> snd (fst (startLoop ctx ms started s)) \<noteq> Some ErrGracefulShutdownTimedOut
     \<and> (is_kind (snd (fst (startLoop ctx ms started s))) ErrGracefulShutdownTimedOut
          \<longrightarrow> (\<exists>c \<in> set evs. is_kind (call_result c) ErrGracefulShutdownTimedOut))"
proof (induction ms arbitrary: s started)
  case Nil
  then show ?case by (simp add: is_kind_def)
next
  case (Cons m ms)
  let ?T = ErrGracefulShutdownTimedOut
  let ?s1 = "logInfo ''starting module'' [S ''module'', S (Name m)] s"
  obtain r s2 where inv: "invoke PStart m ctx ?s1 = (r, s2)" by (cases "invoke PStart m ctx ?s1")
  have c2: "calls s2 = calls s @ [Called (Method PStart (Name m)) r]"
    using invoke_simps(1,3)[of PStart m ctx ?s1] inv by simp
  show ?case
  proof (cases r)
    case None
    from Cons.IH[where s=s2 and started="started @ [m]"] obtain evs where
      e: "calls (snd (startLoop ctx ms (started @ [m]) s2)) = calls s2 @ evs
        \<and> snd (fst (startLoop ctx ms (started @ [m]) s2)) \<noteq> Some ?T
        \<and> (is_kind (snd (fst (startLoop ctx ms (started @ [m]) s2))) ?T
          \<longrightarrow> (\<exists>c \<in> set evs. is_kind (call_result c) ?T))"
      by (elim exE) (rule that)
    show ?thesis
      apply (rule exI[of _ "Called (Method PStart (Name m)) None # evs"])
      using e c2 None inv by (simp add: Let_def)
  next
    case (Some e0)
    obtain shutdownErr s3 where sm: "shutdownModules Background started s2 = (shutdownErr, s3)"
      by (cases "shutdownModules Background started s2")
    obtain evs where e: "calls s3 = calls s2 @ evs"
      using shutdownModules_calls[of Background started s2] sm by auto
    have n: "new_calls s2 s3 = evs" using e by (rule new_calls_append)
    have bl: "is_kind shutdownErr ?T \<longrightarrow> (\<exists>c \<in> set evs. is_kind (call_result c) ?T)"
      using shutdownModules_blame[of Background started s2] sm n by simp
    have res: "startLoop ctx (m # ms) started s =
        ((None, errors_Join [Some (Errorf ''start module %q: %w'' [Name m] e0), shutdownErr]), s3)"
      using inv Some sm by (simp add: Let_def)
    have k: "is_kind (errors_Join [Some (Errorf ''start module %q: %w'' [Name m] e0), shutdownErr]) ?T
       \<longrightarrow> errors_Is e0 ?T \<or> is_kind shutdownErr ?T"
      by (auto simp: is_kind_Join) (simp add: is_kind_def)
    show ?thesis
      apply (rule exI[of _ "Called (Method PStart (Name m)) (Some e0) # evs"])
      unfolding res using e c2 Some bl k errors_Join_not_sentinel
      by (auto simp: is_kind_def)
  qed
qed

text \<open>The steps of \<^verbatim>\<open>Run\<close>, named.\<close>

lemma Run_steps:
  assumes "\<not> isRunning s0"
    and "enter ev ctx0 (s0\<lparr>isRunning := True\<rparr>) = (ctx, s1)"
    and "initAll ctx s1 = (r2, s2)"
    and "runHooksBeforeStart ctx s2 = (r3, s3)"
    and "startAll ctx (logInfo ''starting modules'' [] s3) = ((st, r4), s4)"
    and "runHooksAfterStart ctx s4 = (r5, s5)"
    and "s6 = logError ''after start hook failed, shutting down'' [S ''error'', E r5] s5"
    and "shutdownModules Background (case st of None \<Rightarrow> [] | Some ms \<Rightarrow> ms) s6 = (r7, s7)"
  shows "Run ev ctx0 s0 =
     (case r2 of Some err \<Rightarrow> Returned (Some err) s2 | None \<Rightarrow>
     (case r3 of Some err \<Rightarrow> Returned (Some (Errorf ''before start hook: %w'' [] err)) s3 | None \<Rightarrow>
     (case r4 of Some err \<Rightarrow> Returned (Some err) s4 | None \<Rightarrow>
     (case r5 of Some err \<Rightarrow>
          Returned (errors_Join [Some (Errorf ''after start hook: %w'' [] err), r7]) s7
      | None \<Rightarrow> await ev s5))))"
  using assms by (cases r2; cases r3; cases r4; cases r5) (simp_all add: Run_def)

lemma await_ignores_timer:
  assumes "shutdownTimeout s = 0"
  shows "await (ev\<lparr>timer_race := t\<rparr>) s = await ev s"
proof -
  have sh: "shutdown (ev\<lparr>timer_race := t\<rparr>) s' = shutdown ev s'" if "shutdownTimeout s' = 0" for s'
    using shutdown_race_facts[of s' ev t] that by blast
  have sel: "select_run (ev\<lparr>timer_race := t\<rparr>) ch = select_run ev ch" for ch
    by (simp add: select_run_def split: recv.splits)
  show ?thesis
    using assms by (simp add: await_def Let_def sel sh split: cancellation.splits selected.splits)
qed

lemma await_blame:
  assumes "shutdownTimeout s = 0"
  shows "returned (await ev s) \<noteq> Some (Some ErrGracefulShutdownTimedOut)
    \<and> (\<exists>evs. calls (state_of (await ev s)) = calls s @ evs
        \<and> (\<forall>r. returned (await ev s) = Some r \<and> is_kind r ErrGracefulShutdownTimedOut
              \<longrightarrow> (\<exists>c \<in> set evs. is_kind (call_result c) ErrGracefulShutdownTimedOut)))"
proof -
  let ?T = ErrGracefulShutdownTimedOut
  have sh: "fst (shutdown ev s') \<noteq> Some ?T
      \<and> (\<exists>evs. calls (snd (shutdown ev s')) = calls s' @ evs
          \<and> (is_kind (fst (shutdown ev s')) ?T \<longrightarrow> (\<exists>c \<in> set evs. is_kind (call_result c) ?T)))"
    if z: "shutdownTimeout s' = 0" for s' :: "'a system"
  proof -
    obtain e1 where e1: "calls (snd (runHooksBeforeStop Background s')) = calls s' @ e1"
      using runHooks_calls[of HBeforeStop Background "hooks s'" s']
      by (auto simp: runHooksBeforeStop_def)
    have ext: "\<exists>evs. calls (snd (shutdown ev s')) = calls s' @ evs"
    proof -
      obtain beforeErr s1 where b: "runHooksBeforeStop Background s' = (beforeErr, s1)"
        by (cases "runHooksBeforeStop Background s'")
      define s2 where "s2 = (case beforeErr of
                  Some e \<Rightarrow> logError ''before stop hook failed'' [S ''error'', E (Some e)] s1
                | None \<Rightarrow> s1)"
      obtain shutdownErr s3 where r: "stopRace ev s2 = (shutdownErr, s3)"
        by (cases "stopRace ev s2")
      define s4 where "s4 = (case shutdownErr of
                  Some e \<Rightarrow> logError ''shutdown completed with errors'' [S ''error'', E (Some e)] s3
                | None \<Rightarrow> logInfo ''shutdown completed successfully'' [] s3)"
      obtain afterErr s5 where a: "runHooksAfterStop Background s4 = (afterErr, s5)"
        by (cases "runHooksAfterStop Background s4")
      note st = shutdown_steps[OF b s2_def r s4_def a]
      have c1: "calls s1 = calls s' @ e1" using e1 b by simp
      have c2: "calls s2 = calls s1" by (simp add: s2_def split: option.splits)
      obtain e2 where e2: "calls s3 = calls s2 @ e2" using stopRace_calls[of ev s2] r by auto
      have c4: "calls s4 = calls s3" by (simp add: s4_def split: option.splits)
      obtain e3 where e3: "calls s5 = calls s4 @ e3"
        using runHooks_calls[of HAfterStop Background "hooks s4" s4] a
        by (auto simp: runHooksAfterStop_def)
      have "calls (snd (shutdown ev s')) = calls s' @ (e1 @ e2 @ e3)"
        using c1 c2 e2 c4 e3 by (simp add: st split: option.splits)
      then show ?thesis by blast
    qed
    then obtain evs where evs: "calls (snd (shutdown ev s')) = calls s' @ evs" by blast
    have n: "new_calls s' (snd (shutdown ev s')) = evs" using evs by (rule new_calls_append)
    show ?thesis
      using shutdown_race_facts[of s' ev t] z evs n by auto
  qed
  let ?s1 = "logInfo ''application started'' [] s"
  let ?s2 = "(case cancelled ev of
                  SignalArrives sg \<Rightarrow> logInfo ''received signal'' [S ''signal'', S sg] ?s1
                | _ \<Rightarrow> ?s1)"
  have z2: "shutdownTimeout ?s2 = 0" "calls ?s2 = calls s"
    using assms by (simp_all split: cancellation.splits)
  show ?thesis
  proof (cases "select_run ev (collectBackgroundErrors s)")
    case SelectBlocks
    then have "await ev s = Blocked ?s2" by (simp add: await_def Let_def)
    then show ?thesis using z2 by simp
  next
    case CtxDone
    let ?s3 = "logInfo ''shutdown signal received'' [] ?s2"
    have aw: "await ev s = Returned (fst (shutdown ev ?s3)) (snd (shutdown ev ?s3))"
      using CtxDone by (simp add: await_def Let_def split: prod.splits)
    have z3: "shutdownTimeout ?s3 = 0" "calls ?s3 = calls s" using z2 by simp_all
    show ?thesis unfolding aw using sh[OF z3(1)] z3(2) by simp
  next
    case (BgErr bgErr)
    let ?s3 = "logError ''background module failed'' [S ''error'', E bgErr] ?s2"
    have aw: "await ev s = Returned (fst (shutdown ev ?s3)) (snd (shutdown ev ?s3))"
      using BgErr by (simp add: await_def Let_def split: prod.splits)
    have z3: "shutdownTimeout ?s3 = 0" "calls ?s3 = calls s" using z2 by simp_all
    show ?thesis unfolding aw using sh[OF z3(1)] z3(2) by simp
  qed
qed

lemma is_kind_wrapped:
  "is_kind (Some (Errorf f args e)) ErrGracefulShutdownTimedOut
     = is_kind (Some e) ErrGracefulShutdownTimedOut"
  by (simp add: is_kind_def)

lemma Run_timeout_zero:
  assumes "shutdownTimeout s0 = 0"
  shows "Run (ev\<lparr>timer_race := t\<rparr>) ctx0 s0 = Run ev ctx0 s0
    \<and> returned (Run ev ctx0 s0) \<noteq> Some (Some ErrGracefulShutdownTimedOut)
    \<and> (\<forall>r. returned (Run ev ctx0 s0) = Some r \<and> is_kind r ErrGracefulShutdownTimedOut
          \<longrightarrow> (\<exists>c \<in> set (new_calls s0 (state_of (Run ev ctx0 s0))).
                 is_kind (call_result c) ErrGracefulShutdownTimedOut))"
proof (cases "isRunning s0")
  case True
  then show ?thesis by (simp add: Run_def is_kind_def)
next
  case False
  let ?T = ErrGracefulShutdownTimedOut
  let ?ev' = "ev\<lparr>timer_race := t\<rparr>"
  obtain ctx s1 where en: "enter ev ctx0 (s0\<lparr>isRunning := True\<rparr>) = (ctx, s1)"
    by (cases "enter ev ctx0 (s0\<lparr>isRunning := True\<rparr>)")
  obtain r2 s2 where ia: "initAll ctx s1 = (r2, s2)" by (cases "initAll ctx s1")
  obtain r3 s3 where hb: "runHooksBeforeStart ctx s2 = (r3, s3)"
    by (cases "runHooksBeforeStart ctx s2")
  obtain st r4 s4 where sa: "startAll ctx (logInfo ''starting modules'' [] s3) = ((st, r4), s4)"
    by (cases "startAll ctx (logInfo ''starting modules'' [] s3)") auto
  obtain r5 s5 where ha: "runHooksAfterStart ctx s4 = (r5, s5)"
    by (cases "runHooksAfterStart ctx s4")
  define s6 where "s6 = logError ''after start hook failed, shutting down'' [S ''error'', E r5] s5"
  obtain r7 s7 where sm: "shutdownModules Background (case st of None \<Rightarrow> [] | Some ms \<Rightarrow> ms) s6 = (r7, s7)"
    by (cases "shutdownModules Background (case st of None \<Rightarrow> [] | Some ms \<Rightarrow> ms) s6")
  have en': "enter ?ev' ctx0 (s0\<lparr>isRunning := True\<rparr>) = (ctx, s1)"
    using en by (simp add: enter_def)
  note R = Run_steps[OF False en ia hb sa ha s6_def sm]
  note R' = Run_steps[OF False en' ia hb sa ha s6_def sm]
  have z5: "shutdownTimeout s5 = 0"
    using startup_frame(4)[OF en ia hb sa ha] assms by simp
  have indep: "Run ?ev' ctx0 s0 = Run ev ctx0 s0"
    unfolding R R' await_ignores_timer[OF z5] by (rule refl)
  \<comment> \<open>the calls recorded by each step\<close>
  have c1: "calls s1 = calls s0" using frame_enter[OF en] by simp
  from initLoop_blame[of ctx "getAll (registry s1)" s1] obtain e2 where
    e2': "calls (snd (initLoop ctx (getAll (registry s1)) s1)) = calls s1 @ e2
      \<and> fst (initLoop ctx (getAll (registry s1)) s1) \<noteq> Some ?T
      \<and> (is_kind (fst (initLoop ctx (getAll (registry s1)) s1)) ?T
          \<longrightarrow> (\<exists>c \<in> set e2. is_kind (call_result c) ?T))"
    by (elim exE) (rule that)
  have e2: "calls s2 = calls s0 @ e2" "r2 \<noteq> Some ?T"
    "is_kind r2 ?T \<longrightarrow> (\<exists>c \<in> set e2. is_kind (call_result c) ?T)"
    using e2' ia c1 by (simp_all add: initAll_def)
  from runHooks_calls[of HBeforeStart ctx "hooks s2" s2] obtain e3 where
    e3': "calls (snd (runHooks HBeforeStart ctx (hooks s2) s2)) = calls s2 @ e3
      \<and> (\<forall>e. fst (runHooks HBeforeStart ctx (hooks s2) s2) = Some e
            \<longrightarrow> Called (Callback HBeforeStart) (Some e) \<in> set e3)"
    by (elim exE) (rule that)
  have e3: "calls s3 = calls s2 @ e3"
    "\<forall>e. r3 = Some e \<longrightarrow> Called (Callback HBeforeStart) (Some e) \<in> set e3"
    using e3' hb by (simp_all add: runHooksBeforeStart_def)
  let ?s3 = "logInfo ''starting modules'' [] s3"
  from startLoop_blame[of ctx "getAll (registry ?s3)" "[]" ?s3] obtain e4 where
    e4': "calls (snd (startLoop ctx (getAll (registry ?s3)) [] ?s3)) = calls ?s3 @ e4
      \<and> snd (fst (startLoop ctx (getAll (registry ?s3)) [] ?s3)) \<noteq> Some ?T
      \<and> (is_kind (snd (fst (startLoop ctx (getAll (registry ?s3)) [] ?s3))) ?T
          \<longrightarrow> (\<exists>c \<in> set e4. is_kind (call_result c) ?T))"
    by (elim exE) (rule that)
  have e4: "calls s4 = calls s3 @ e4" "r4 \<noteq> Some ?T"
    "is_kind r4 ?T \<longrightarrow> (\<exists>c \<in> set e4. is_kind (call_result c) ?T)"
    using e4' sa by (simp_all add: startAll_def)
  from runHooks_calls[of HAfterStart ctx "hooks s4" s4] obtain e5 where
    e5': "calls (snd (runHooks HAfterStart ctx (hooks s4) s4)) = calls s4 @ e5
      \<and> (\<forall>e. fst (runHooks HAfterStart ctx (hooks s4) s4) = Some e
            \<longrightarrow> Called (Callback HAfterStart) (Some e) \<in> set e5)"
    by (elim exE) (rule that)
  have e5: "calls s5 = calls s4 @ e5"
    "\<forall>e. r5 = Some e \<longrightarrow> Called (Callback HAfterStart) (Some e) \<in> set e5"
    using e5' ha by (simp_all add: runHooksAfterStart_def)
  obtain e7 where e7: "calls s7 = calls s6 @ e7"
    using shutdownModules_calls[of Background "case st of None \<Rightarrow> [] | Some ms \<Rightarrow> ms" s6] sm
    by auto
  have b7: "is_kind r7 ?T \<longrightarrow> (\<exists>c \<in> set e7. is_kind (call_result c) ?T)"
    using shutdownModules_blame[of Background "case st of None \<Rightarrow> [] | Some ms \<Rightarrow> ms" s6]
      sm new_calls_append[OF e7] by simp
  have c6: "calls s6 = calls s5" by (simp add: s6_def)
  from await_blame[OF z5, of ev] obtain e6 where
    e6: "calls (state_of (await ev s5)) = calls s5 @ e6
        \<and> (\<forall>r. returned (await ev s5) = Some r \<and> is_kind r ?T
              \<longrightarrow> (\<exists>c \<in> set e6. is_kind (call_result c) ?T))"
    and ns: "returned (await ev s5) \<noteq> Some (Some ?T)"
    by blast
  have hook_kind: "is_kind (call_result (Called tg (Some e))) ?T = is_kind (Some e) ?T" for tg e
    by simp
  show ?thesis
  proof (cases r2)
    case (Some err)
    then have run: "Run ev ctx0 s0 = Returned (Some err) s2" using R by simp
    have n: "new_calls s0 s2 = e2" using e2(1) by (rule new_calls_append)
    show ?thesis using indep run n e2 Some by simp
  next
    case r2n: None
    show ?thesis
    proof (cases r3)
      case (Some err)
      then have run: "Run ev ctx0 s0 = Returned (Some (Errorf ''before start hook: %w'' [] err)) s3"
        using R r2n by simp
      have n: "new_calls s0 s3 = e2 @ e3" using e2(1) e3(1) by (simp add: new_calls_def)
      have "Called (Callback HBeforeStart) (Some err) \<in> set e3" using e3(2) Some by simp
      then have "is_kind (Some err) ?T \<longrightarrow> (\<exists>c \<in> set (e2 @ e3). is_kind (call_result c) ?T)"
        using hook_kind by (metis Un_iff set_append)
      then show ?thesis using indep run n by (simp add: is_kind_wrapped)
    next
      case r3n: None
      show ?thesis
      proof (cases r4)
        case (Some err)
        then have run: "Run ev ctx0 s0 = Returned (Some err) s4" using R r2n r3n by simp
        have n: "new_calls s0 s4 = e2 @ e3 @ e4"
          using e2(1) e3(1) e4(1) by (simp add: new_calls_def)
        show ?thesis using indep run n e4 Some by auto
      next
        case r4n: None
        show ?thesis
        proof (cases r5)
          case (Some err)
          let ?r = "errors_Join [Some (Errorf ''after start hook: %w'' [] err), r7]"
          have run: "Run ev ctx0 s0 = Returned ?r s7" using R r2n r3n r4n Some by simp
          have n: "new_calls s0 s7 = e2 @ e3 @ e4 @ e5 @ e7"
            using e2(1) e3(1) e4(1) e5(1) c6 e7 by (simp add: new_calls_def)
          have h: "Called (Callback HAfterStart) (Some err) \<in> set e5" using e5(2) Some by simp
          have k: "is_kind ?r ?T \<longrightarrow> is_kind (Some err) ?T \<or> is_kind r7 ?T"
            by (auto simp: is_kind_Join is_kind_wrapped)
          have "is_kind ?r ?T \<longrightarrow> (\<exists>c \<in> set (e2 @ e3 @ e4 @ e5 @ e7). is_kind (call_result c) ?T)"
          proof
            assume "is_kind ?r ?T"
            with k consider "is_kind (Some err) ?T" | "is_kind r7 ?T" by blast
            then show "\<exists>c \<in> set (e2 @ e3 @ e4 @ e5 @ e7). is_kind (call_result c) ?T"
            proof cases
              case 1
              then have "is_kind (call_result (Called (Callback HAfterStart) (Some err))) ?T"
                by simp
              with h show ?thesis by (metis Un_iff set_append)
            next
              case 2
              with b7 obtain c where "c \<in> set e7" "is_kind (call_result c) ?T" by blast
              then show ?thesis by auto
            qed
          qed
          then show ?thesis using indep run n errors_Join_not_sentinel by simp
        next
          case None
          have run: "Run ev ctx0 s0 = await ev s5" using R r2n r3n r4n None by simp
          have n: "new_calls s0 (state_of (await ev s5)) = e2 @ e3 @ e4 @ e5 @ e6"
            using e2(1) e3(1) e4(1) e5(1) e6 by (simp add: new_calls_def)
          show ?thesis using indep run n e6 ns by auto
        qed
      qed
    qed
  qed
qed

section \<open>The stop race\<close>

text \<open>
  Claim C4. In \<^verbatim>\<open>shutdown\<close>, with a graceful timeout above 0 the result of the stop race
  is \<^verbatim>\<open>ErrGracefulShutdownTimedOut\<close> exactly when the timer fires before the result of
  \<^verbatim>\<open>shutdownAll\<close> arrives, however many calls of \<^verbatim>\<open>Stop\<close> the abandoned goroutine has
  completed, and \<^verbatim>\<open>shutdown\<close> then returns an error of that kind. With a timeout of
  exactly 0 the race is \<^verbatim>\<open>shutdownAll\<close> on a context without deadline, run in place, and
  no timer: what \<^verbatim>\<open>Run\<close> does and returns is the same whatever the timing of the race, it
  never returns \<^verbatim>\<open>ErrGracefulShutdownTimedOut\<close>, and an error of that kind can be part
  of what it returns only when a module method or a hook callback called in the run
  returned such an error itself. The same holds of \<^verbatim>\<open>shutdown\<close> whenever the timer does
  not win.
\<close>

theorem shutdown_timeout_race:
  "(0 < shutdownTimeout s \<longrightarrow>
      ((fst (stopRace ev s) = Some ErrGracefulShutdownTimedOut) = (timer_race ev \<noteq> None))
      \<and> (timer_race ev \<noteq> None \<longrightarrow> is_kind (fst (shutdown ev s)) ErrGracefulShutdownTimedOut))
   \<and> (shutdownTimeout s = 0 \<longrightarrow>
        stopRace ev s = shutdownAll Background s
      \<and> shutdown (ev\<lparr>timer_race := t\<rparr>) s = shutdown ev s
      \<and> Run (ev\<lparr>timer_race := t\<rparr>) ctx0 s = Run ev ctx0 s
      \<and> returned (Run ev ctx0 s) \<noteq> Some (Some ErrGracefulShutdownTimedOut)
      \<and> (\<forall>r. returned (Run ev ctx0 s) = Some r \<and> is_kind r ErrGracefulShutdownTimedOut
            \<longrightarrow> (\<exists>c \<in> set (new_calls s (state_of (Run ev ctx0 s))).
                   is_kind (call_result c) ErrGracefulShutdownTimedOut)))
   \<and> ((shutdownTimeout s = 0 \<or> timer_race ev = None)
        \<and> is_kind (fst (shutdown ev s)) ErrGracefulShutdownTimedOut \<longrightarrow>
          (\<exists>c \<in> set (new_calls s (snd (shutdown ev s))).
             is_kind (call_result c) ErrGracefulShutdownTimedOut))"
  using shutdown_race_facts[where s=s and ev=ev and t=t]
    Run_timeout_zero[where ?s0.0=s and ev=ev and t=t and ?ctx0.0=ctx0] by blast

text \<open>
  One module and a cancelled run context. With a timeout of 10 and the timer firing
  before any \<^verbatim>\<open>Stop\<close> has completed, the race gives the timeout error; with a timeout
  of 0 the same timing changes nothing and \<^verbatim>\<open>Run\<close> returns the module's stop error.
\<close>

theorem shutdown_timeout_race_witness:
  "fst (stopRace (example_env\<lparr>timer_race := Some 0\<rparr>) (example_system one_module []))
     = Some ErrGracefulShutdownTimedOut
   \<and> is_kind (fst (shutdown (example_env\<lparr>timer_race := Some 0\<rparr>) (example_system one_module [])))
       ErrGracefulShutdownTimedOut
   \<and> fst (stopRace example_env (example_system one_module [])) \<noteq> Some ErrGracefulShutdownTimedOut
   \<and> returned (Run (example_env\<lparr>cancelled := CallerCancels, timer_race := Some 0\<rparr>) Background
         ((example_system one_module [])\<lparr>shutdownTimeout := 0\<rparr>))
     = Some (Some (Joined [Errorf ''stop module %q: %w'' [''a''] (UserError ''stop a'')]))"
proof -
  let ?s = "example_system one_module []"
  let ?ev = "example_env\<lparr>timer_race := Some 0\<rparr>"
  have pos: "0 < shutdownTimeout ?s" by (simp add: example_system_def)
  have fires: "timer_race ?ev \<noteq> None" by simp
  have quiet: "timer_race example_env = None" by (simp add: example_env_def)
  from shutdown_timeout_race[where s="?s" and ev="?ev"] pos fires
  have a: "fst (stopRace ?ev ?s) = Some ErrGracefulShutdownTimedOut"
    and b: "is_kind (fst (shutdown ?ev ?s)) ErrGracefulShutdownTimedOut"
    by blast+
  from shutdown_timeout_race[where s="?s" and ev=example_env] pos quiet
  have c: "fst (stopRace example_env ?s) \<noteq> Some ErrGracefulShutdownTimedOut"
    by simp
  let ?s0 = "?s\<lparr>shutdownTimeout := 0\<rparr>"
  let ?ev0 = "example_env\<lparr>cancelled := CallerCancels\<rparr>"
  have zero: "shutdownTimeout ?s0 = 0" by simp
  from shutdown_timeout_race[where s="?s0" and ev="?ev0" and t="Some 0" and ?ctx0.0=Background] zero
  have "Run (?ev0\<lparr>timer_race := Some 0\<rparr>) Background ?s0 = Run ?ev0 Background ?s0"
    by blast
  moreover have "returned (Run ?ev0 Background ?s0)
      = Some (Some (Joined [Errorf ''stop module %q: %w'' [''a''] (UserError ''stop a'')]))"
    by (simp add: Run_def await_def select_run_def shutdown_def stopRace_def
        collectBackgroundErrors_def asBackgroundModule_def one_module_def eval_defs)
  ultimately have d: "returned (Run (example_env\<lparr>cancelled := CallerCancels, timer_race := Some 0\<rparr>)
      Background ?s0) = Some (Some (Joined [Errorf ''stop module %q: %w'' [''a''] (UserError ''stop a'')]))"
    by simp
  from a b c d show ?thesis by simp
qed

section \<open>The run-state flag on every way out of Run\<close>

text \<open>
  For a run that was admitted, with its steps named: the flag is reset exactly when
  \<^verbatim>\<open>Run\<close> goes through \<^verbatim>\<open>shutdown\<close>. It is still set after each of the four early
  returns (a failure of \<^verbatim>\<open>initAll\<close>, of a BeforeStart hook, of \<^verbatim>\<open>startAll\<close>, of an
  AfterStart hook), and while \<^verbatim>\<open>Run\<close> blocks.
\<close>

lemma Run_flag_on_exit:
  assumes "\<not> isRunning s0"
    and "enter ev ctx0 (s0\<lparr>isRunning := True\<rparr>) = (ctx, s1)"
    and "initAll ctx s1 = (r2, s2)"
    and "runHooksBeforeStart ctx s2 = (r3, s3)"
    and "startAll ctx (logInfo ''starting modules'' [] s3) = ((st, r4), s4)"
    and "runHooksAfterStart ctx s4 = (r5, s5)"
  shows "isRunning (state_of (Run ev ctx0 s0)) =
     (r2 \<noteq> None \<or> r3 \<noteq> None \<or> r4 \<noteq> None \<or> r5 \<noteq> None
        \<or> select_run ev (collectBackgroundErrors s5) = SelectBlocks)"
proof -
  define s6 where "s6 = logError ''after start hook failed, shutting down'' [S ''error'', E r5] s5"
  obtain r7 s7 where sm: "shutdownModules Background (case st of None \<Rightarrow> [] | Some ms \<Rightarrow> ms) s6 = (r7, s7)"
    by (cases "shutdownModules Background (case st of None \<Rightarrow> [] | Some ms \<Rightarrow> ms) s6")
  note R = Run_steps[OF assms s6_def sm]
  have 1: "isRunning s1" using frame_enter[OF assms(2)] by simp
  have 2: "isRunning s2" using frame_initAll[of s1 ctx] assms(3) 1 by (simp add: frame_def)
  have 3: "isRunning s3" using frame_runHooksAll(1)[of s2 ctx] assms(4) 2 by (simp add: frame_def)
  have 4: "isRunning s4"
    using frame_startAll[of "logInfo ''starting modules'' [] s3" ctx] assms(5) 3
    by (simp add: frame_def)
  have 5: "isRunning s5" using frame_runHooksAll(2)[of s4 ctx] assms(6) 4 by (simp add: frame_def)
  have 7: "isRunning s7"
    using frame_shutdownModules[of s6 Background "case st of None \<Rightarrow> [] | Some ms \<Rightarrow> ms"] sm 5
    by (simp add: frame_def s6_def)
  have aw: "isRunning (state_of (await ev s5))
      = (select_run ev (collectBackgroundErrors s5) = SelectBlocks)"
  proof -
    have sh: "shutdown ev s' = (r, s'') \<Longrightarrow> \<not> isRunning s''" for s' r s''
      using shutdown_resets_flag[of ev s'] by simp
    show ?thesis
      using 5 sh
      by (cases "select_run ev (collectBackgroundErrors s5)")
         (auto simp: await_def Let_def split: prod.splits cancellation.splits)
  qed
  show ?thesis
    unfolding R using 2 3 4 7 aw by (cases r2; cases r3; cases r4; cases r5) simp_all
qed

end
